theory Spec2Isabelle
  imports Main "HOL-Library.Product_Lexorder"
begin

section \<open>Values, records and the world\<close>

text \<open>
  The inventory is a Python list of dicts. The values the program stores under a string
  key are strings (everything \<^verbatim>\<open>main.py\<close> reads with \<^verbatim>\<open>input()\<close>, everything
  \<^verbatim>\<open>csv.DictReader\<close> yields) or \<^verbatim>\<open>None\<close> (the filler of \<^verbatim>\<open>DictReader\<close> for a short
  row, and the "unset" default of \<^verbatim>\<open>update_item\<close>). A string is the list of its
  code points, and a \<open>char\<close> is a code point below 256: the length of a string is the
  number of its characters, as in Python.
\<close>

datatype pyval = PStr string | PNone

text \<open>
  A dict: the entries under string keys, and the entry under the key \<^verbatim>\<open>None\<close>, which only
  \<^verbatim>\<open>DictReader\<close> creates (its \<^verbatim>\<open>restkey\<close>, holding the surplus fields of a long row).
  No function of the program depends on the order of the keys.
\<close>

record pydict =
  named :: "string \<rightharpoonup> pyval"
  rest :: "string list option"

datatype exn = KeyError | AttributeError | TypeError | ValueError | FileNotFoundError
  | UnicodeDecodeError | CsvError

text \<open>
  The file \<^verbatim>\<open>warehouse_inventory.csv\<close>, when it exists: either its bytes are not UTF-8
  text, or they are, and \<^verbatim>\<open>csv.reader\<close> splits the text into rows of fields. How a field
  is quoted inside a line is the \<^verbatim>\<open>csv\<close> module's and is not modelled; the length of
  the fields is kept, since the reader refuses a field that is too long.
\<close>

datatype csv_file = Undecodable | Rows "string list list"

datatype pyret = RNone | RList "pydict list"

text \<open>
  What a call can read and change: \<open>mem\<close> is the content of the list object the caller
  passes as \<^verbatim>\<open>data\<close>; \<open>disk\<close> is the file (\<open>None\<close>: the file does not exist);
  \<open>writes\<close> counts how often the file was opened for writing; \<open>stdout\<close> is the text
  printed so far.
\<close>

record world =
  mem :: "pydict list"
  disk :: "csv_file option"
  writes :: nat
  stdout :: string

definition nl :: string where
  "nl = [CHR 0x0A]"

definition cr :: string where
  "cr = [CHR 0x0D]"

section \<open>The record store\<close>

definition fieldnames :: "string list" where
  "fieldnames = [''id'', ''item'', ''gtin'', ''mpn'', ''brand'', ''quantity'',
     ''expiration_date'', ''price'']"

text \<open>\<^verbatim>\<open>csv.writer\<close> writes \<^verbatim>\<open>None\<close> as the empty field and a string as it is.\<close>

fun csv_field :: "pyval \<Rightarrow> string" where
  "csv_field (PStr s) = s"
| "csv_field PNone = []"

text \<open>
  \<^verbatim>\<open>DictWriter._dict_to_list\<close> with the default \<^verbatim>\<open>extrasaction='raise'\<close> and
  \<^verbatim>\<open>restval=''\<close>: a key outside \<open>fieldnames\<close> raises \<^verbatim>\<open>ValueError\<close>, a missing key
  is written as the empty field.
\<close>

definition dict_to_list :: "pydict \<Rightarrow> exn + string list" where
  "dict_to_list d =
     (if rest d \<noteq> None \<or> \<not> dom (named d) \<subseteq> set fieldnames then Inl ValueError
      else Inr (map (\<lambda>k. csv_field (case named d k of None \<Rightarrow> PStr [] | Some v \<Rightarrow> v))
                  fieldnames))"

text \<open>The loop \<^verbatim>\<open>for row in data: writer.writerow(row)\<close>; the rows written before an
  exception stay in the file.\<close>

fun writerows :: "pydict list \<Rightarrow> string list list \<Rightarrow> exn option \<times> string list list" where
  "writerows [] rows = (None, rows)"
| "writerows (d # ds) rows =
     (case dict_to_list d of
        Inl e \<Rightarrow> (Some e, rows)
      | Inr r \<Rightarrow> writerows ds (rows @ [r]))"

definition save_data :: "pydict list \<Rightarrow> world \<Rightarrow> exn option \<times> world" where
  "save_data data w =
     (case writerows data [fieldnames] of
        (e, rows) \<Rightarrow> (e, w\<lparr>disk := Some (Rows rows), writes := Suc (writes w)\<rparr>))"

text \<open>The assignment \<^verbatim>\<open>d[k] = v\<close> on the entries under string keys.\<close>

definition dict_set :: "string \<Rightarrow> pyval \<Rightarrow> (string \<rightharpoonup> pyval) \<Rightarrow> (string \<rightharpoonup> pyval)" where
  "dict_set k v m = m(k \<mapsto> v)"

text \<open>
  One step of \<^verbatim>\<open>DictReader.__next__\<close>: \<^verbatim>\<open>dict(zip(fieldnames, row))\<close>, then the surplus
  of a long row under the key \<^verbatim>\<open>None\<close>, or \<^verbatim>\<open>None\<close> under every key a short row leaves
  out.
\<close>

definition dict_of_row :: "string list \<Rightarrow> string list \<Rightarrow> pydict" where
  "dict_of_row fns row =
     \<lparr>named = fold (\<lambda>kv. dict_set (fst kv) (snd kv))
                (zip fns (map PStr row) @ map (\<lambda>k. (k, PNone)) (drop (length row) fns))
                Map.empty,
      rest = (if length fns < length row then Some (drop (length fns) row) else None)\<rparr>"

text \<open>
  \<^verbatim>\<open>csv.field_size_limit()\<close>, which the program never changes: the reader raises
  \<^verbatim>\<open>csv.Error\<close> at the first field, of the header or of any row, that has more
  characters.
\<close>

definition field_size_limit :: nat where
  "field_size_limit = 131072"

definition within_limit :: "string list list \<Rightarrow> bool" where
  "within_limit rows \<longleftrightarrow> list_all (list_all (\<lambda>f. length f \<le> field_size_limit)) rows"

text \<open>What \<^verbatim>\<open>DictReader\<close> yields from rows it could read: the first row, whatever it
  holds, gives the field names, and every empty row after it is skipped.\<close>

fun dict_rows :: "string list list \<Rightarrow> pydict list" where
  "dict_rows [] = []"
| "dict_rows (fns # rows) = map (dict_of_row fns) (filter (\<lambda>r. r \<noteq> []) rows)"

text \<open>
  \<^verbatim>\<open>load_data\<close>: \<^verbatim>\<open>open\<close> raises when the file is missing; \<^verbatim>\<open>list(reader)\<close> reads
  the whole file, so bytes that are not UTF-8 and a field over the limit raise wherever they
  stand.
\<close>

definition load_data :: "world \<Rightarrow> exn + pydict list" where
  "load_data w =
     (case disk w of
        None \<Rightarrow> Inl FileNotFoundError
      | Some Undecodable \<Rightarrow> Inl UnicodeDecodeError
      | Some (Rows rows) \<Rightarrow> if within_limit rows then Inr (dict_rows rows) else Inl CsvError)"

text \<open>A well-formed record: exactly the eight fields, each a string.\<close>

definition well_formed :: "pydict \<Rightarrow> bool" where
  "well_formed d \<longleftrightarrow>
     rest d = None \<and> dom (named d) \<subseteq> set fieldnames \<and>
     list_all (\<lambda>k. case named d k of Some (PStr s) \<Rightarrow> True | _ \<Rightarrow> False) fieldnames"

section \<open>Strings and formatting\<close>

definition sq :: string where
  "sq = [CHR 0x27]"

text \<open>
  \<^verbatim>\<open>str.lower\<close>. Among the code points below 256 the letters with a lower-case form
  are A to Z and U+00C0 to U+00DE without the sign U+00D7, each 32 below its lower-case
  form; every other character is kept.
\<close>

definition upper_letters :: string where
  "upper_letters =
     ''ABCDEFGHIJKLMNOPQRSTUVWXYZ'' @
     [CHR 0xC0, CHR 0xC1, CHR 0xC2, CHR 0xC3, CHR 0xC4, CHR 0xC5, CHR 0xC6, CHR 0xC7,
      CHR 0xC8, CHR 0xC9, CHR 0xCA, CHR 0xCB, CHR 0xCC, CHR 0xCD, CHR 0xCE, CHR 0xCF,
      CHR 0xD0, CHR 0xD1, CHR 0xD2, CHR 0xD3, CHR 0xD4, CHR 0xD5, CHR 0xD6, CHR 0xD8,
      CHR 0xD9, CHR 0xDA, CHR 0xDB, CHR 0xDC, CHR 0xDD, CHR 0xDE]"

definition lower_letters :: string where
  "lower_letters =
     ''abcdefghijklmnopqrstuvwxyz'' @
     [CHR 0xE0, CHR 0xE1, CHR 0xE2, CHR 0xE3, CHR 0xE4, CHR 0xE5, CHR 0xE6, CHR 0xE7,
      CHR 0xE8, CHR 0xE9, CHR 0xEA, CHR 0xEB, CHR 0xEC, CHR 0xED, CHR 0xEE, CHR 0xEF,
      CHR 0xF0, CHR 0xF1, CHR 0xF2, CHR 0xF3, CHR 0xF4, CHR 0xF5, CHR 0xF6, CHR 0xF8,
      CHR 0xF9, CHR 0xFA, CHR 0xFB, CHR 0xFC, CHR 0xFD, CHR 0xFE]"

definition lower_char :: "char \<Rightarrow> char" where
  "lower_char c =
     (case map_of (zip upper_letters lower_letters) c of
        Some l \<Rightarrow> l
      | None \<Rightarrow> c)"

definition lower :: "string \<Rightarrow> string" where
  "lower s = map lower_char s"

text \<open>\<^verbatim>\<open>v.lower()\<close>: \<^verbatim>\<open>None\<close> has no such method.\<close>

fun str_lower :: "pyval \<Rightarrow> exn + string" where
  "str_lower (PStr s) = Inr (lower s)"
| "str_lower PNone = Inl AttributeError"

text \<open>\<^verbatim>\<open>{v}\<close> in an f-string.\<close>

fun py_str :: "pyval \<Rightarrow> string" where
  "py_str (PStr s) = s"
| "py_str PNone = ''None''"

text \<open>\<^verbatim>\<open>{v:<n}\<close> in an f-string: a string is padded on the right to \<open>n\<close> characters
  and never cut; \<^verbatim>\<open>None\<close> rejects the format.\<close>

definition ljust :: "nat \<Rightarrow> string \<Rightarrow> string" where
  "ljust n s = s @ replicate (n - length s) (CHR '' '')"

fun format_left :: "nat \<Rightarrow> pyval \<Rightarrow> exn + string" where
  "format_left n (PStr s) = Inr (ljust n s)"
| "format_left n PNone = Inl TypeError"

text \<open>\<^verbatim>\<open>d[k]\<close>.\<close>

definition getitem :: "pydict \<Rightarrow> string \<Rightarrow> exn + pyval" where
  "getitem d k = (case named d k of None \<Rightarrow> Inl KeyError | Some v \<Rightarrow> Inr v)"

text \<open>\<^verbatim>\<open>%d\<close> of a natural number.\<close>

definition digit_char :: "nat \<Rightarrow> char" where
  "digit_char n = ''0123456789'' ! n"

function str_nat :: "nat \<Rightarrow> string" where
  "str_nat n = (if n < 10 then [digit_char n] else str_nat (n div 10) @ [digit_char (n mod 10)])"
  by pat_completeness auto
termination
  by (relation "measure id") auto

declare str_nat.simps [simp del]

section \<open>The wrappers\<close>

text \<open>
  A call of a decorated function, after the list \<^verbatim>\<open>data\<close> (which is \<open>mem\<close>): the
  other positional arguments and the keyword arguments.
\<close>

type_synonym call = "pyval list \<times> (string \<times> pyval) list"

definition progress_text :: "nat \<Rightarrow> string" where
  "progress_text i =
     ''['' @ ljust 20 (replicate i (CHR ''='')) @ ''] '' @ str_nat (5 * i) @ ''%''"

definition progress_output :: string where
  "progress_output =
     nl @ ''Processing...'' @ nl @
     concat (map (\<lambda>i. cr @ progress_text i) [0..<21]) @
     nl @ ''Done'' @ nl"

text \<open>\<^verbatim>\<open>progress_bar\<close>: the bar is printed, then the function runs on the same arguments
  and its result is returned.\<close>

definition progress_bar :: "('a \<Rightarrow> world \<Rightarrow> 'b \<times> world) \<Rightarrow> 'a \<Rightarrow> world \<Rightarrow> 'b \<times> world" where
  "progress_bar func a w = func a (w\<lparr>stdout := stdout w @ progress_output\<rparr>)"

text \<open>\<^verbatim>\<open>any(d['item'] == item for d in data)\<close>: stops at the first match; a dict without
  the key raises before that.\<close>

fun any_item :: "pyval \<Rightarrow> pydict list \<Rightarrow> exn + bool" where
  "any_item item [] = Inr False"
| "any_item item (d # ds) =
     (case getitem d ''item'' of
        Inl e \<Rightarrow> Inl e
      | Inr v \<Rightarrow> if v = item then Inr True else any_item item ds)"

text \<open>
  \<^verbatim>\<open>check_item_present\<close>: \<^verbatim>\<open>wrapper(data, *args, **kwargs)\<close> takes the name from
  \<^verbatim>\<open>kwargs.get('item')\<close>, which is \<^verbatim>\<open>None\<close> when the call has no such keyword.
\<close>

definition kwargs_get :: "(string \<times> pyval) list \<Rightarrow> string \<Rightarrow> pyval" where
  "kwargs_get kwargs k = (case map_of kwargs k of None \<Rightarrow> PNone | Some v \<Rightarrow> v)"

definition not_found_notice :: "pyval \<Rightarrow> string" where
  "not_found_notice item = ''Item '' @ py_str item @ '' not found.'' @ nl"

definition check_item_present ::
  "(call \<Rightarrow> world \<Rightarrow> (exn + pyret) \<times> world) \<Rightarrow> call \<Rightarrow> world \<Rightarrow> (exn + pyret) \<times> world" where
  "check_item_present func c w =
     (if ''data'' \<in> set (map fst (snd c)) then (Inl TypeError, w)
      else
        let item = kwargs_get (snd c) ''item'' in
        case any_item item (mem w) of
          Inl e \<Rightarrow> (Inl e, w)
        | Inr True \<Rightarrow> func c w
        | Inr False \<Rightarrow> (Inr RNone, w\<lparr>stdout := stdout w @ not_found_notice item\<rparr>))"

text \<open>
  Binding the arguments of a call to the parameters after \<^verbatim>\<open>data\<close>: every mismatch
  (too many positional arguments, an unknown keyword, a parameter given twice) is a
  \<^verbatim>\<open>TypeError\<close>.
\<close>

definition bind_params :: "string list \<Rightarrow> call \<Rightarrow> exn + (string \<rightharpoonup> pyval)" where
  "bind_params names c =
     (if length names < length (fst c) then Inl TypeError
      else if \<exists>k \<in> set (map fst (snd c)). k \<notin> set names then Inl TypeError
      else if \<exists>k \<in> set (map fst (snd c)). k \<in> set (take (length (fst c)) names)
        then Inl TypeError
      else Inr (map_of (zip names (fst c) @ snd c)))"

section \<open>The mutating operations\<close>

text \<open>What the shared \<^verbatim>\<open>Faker\<close> instance returns during one call of \<^verbatim>\<open>add_item\<close>.\<close>

record fake =
  uuid4 :: string
  ean13 :: string
  ean8 :: string
  company :: string

definition new_record :: "fake \<Rightarrow> pyval \<Rightarrow> pyval \<Rightarrow> pyval \<Rightarrow> pyval \<Rightarrow> pydict" where
  "new_record fk item quantity expiration_date price =
     \<lparr>named = [''id'' \<mapsto> PStr (uuid4 fk), ''item'' \<mapsto> item, ''gtin'' \<mapsto> PStr (ean13 fk),
        ''mpn'' \<mapsto> PStr (ean8 fk), ''brand'' \<mapsto> PStr (company fk), ''quantity'' \<mapsto> quantity,
        ''expiration_date'' \<mapsto> expiration_date, ''price'' \<mapsto> price],
      rest = None\<rparr>"

text \<open>
  \<^verbatim>\<open>add_item\<close>: \<^verbatim>\<open>data.append\<close> changes the caller's list, \<^verbatim>\<open>save_data\<close> writes it,
  the notice is printed; the function has no \<^verbatim>\<open>return\<close>.
\<close>

fun add_item_body ::
  "fake \<Rightarrow> pyval \<times> pyval \<times> pyval \<times> pyval \<Rightarrow> world \<Rightarrow> (exn + pyret) \<times> world" where
  "add_item_body fk (item, quantity, expiration_date, price) w =
     (case save_data (mem w @ [new_record fk item quantity expiration_date price])
             (w\<lparr>mem := mem w @ [new_record fk item quantity expiration_date price]\<rparr>) of
        (Some e, w2) \<Rightarrow> (Inl e, w2)
      | (None, w2) \<Rightarrow>
          (Inr RNone,
           w2\<lparr>stdout := stdout w2 @ ''Item '' @ sq @ py_str item @ sq @
                 '' added successfully.'' @ nl\<rparr>))"

definition add_item ::
  "fake \<Rightarrow> pyval \<times> pyval \<times> pyval \<times> pyval \<Rightarrow> world \<Rightarrow> (exn + pyret) \<times> world" where
  "add_item fk = progress_bar (add_item_body fk)"

text \<open>
  The comprehension \<^verbatim>\<open>[d for d in data if d['item'].lower() != item.lower()]\<close>, with the
  exceptions of each step in the order of evaluation.
\<close>

fun remove_filter :: "pyval \<Rightarrow> pydict list \<Rightarrow> exn + pydict list" where
  "remove_filter item [] = Inr []"
| "remove_filter item (d # ds) =
     (case getitem d ''item'' of
        Inl e \<Rightarrow> Inl e
      | Inr v \<Rightarrow>
          (case str_lower v of
             Inl e \<Rightarrow> Inl e
           | Inr a \<Rightarrow>
               (case str_lower item of
                  Inl e \<Rightarrow> Inl e
                | Inr b \<Rightarrow>
                    (case remove_filter item ds of
                       Inl e \<Rightarrow> Inl e
                     | Inr r \<Rightarrow> Inr (if a \<noteq> b then d # r else r)))))"

text \<open>
  \<^verbatim>\<open>remove_item\<close>: the filtered list is bound to the local name \<^verbatim>\<open>data\<close> and saved; the
  caller's list is not touched, and the function has no \<^verbatim>\<open>return\<close>.
\<close>

definition remove_item_body :: "call \<Rightarrow> world \<Rightarrow> (exn + pyret) \<times> world" where
  "remove_item_body c w =
     (case bind_params [''item''] c of
        Inl e \<Rightarrow> (Inl e, w)
      | Inr b \<Rightarrow>
          (case b ''item'' of
             None \<Rightarrow> (Inl TypeError, w)
           | Some item \<Rightarrow>
               (case remove_filter item (mem w) of
                  Inl e \<Rightarrow> (Inl e, w)
                | Inr kept \<Rightarrow>
                    (case save_data kept w of
                       (Some e, w') \<Rightarrow> (Inl e, w')
                     | (None, w') \<Rightarrow>
                         (Inr RNone,
                          w'\<lparr>stdout := stdout w' @ ''Item '' @ sq @ py_str item @ sq @
                                '' removed successfully.'' @ nl\<rparr>)))))"

definition remove_item :: "call \<Rightarrow> world \<Rightarrow> (exn + pyret) \<times> world" where
  "remove_item = progress_bar (check_item_present remove_item_body)"

text \<open>\<^verbatim>\<open>if v is not None: d[k] = v\<close>.\<close>

definition set_unless_none :: "string \<Rightarrow> pyval \<Rightarrow> (string \<rightharpoonup> pyval) \<Rightarrow> (string \<rightharpoonup> pyval)" where
  "set_unless_none k v m = (if v \<noteq> PNone then dict_set k v m else m)"

definition update_dict :: "pyval \<Rightarrow> pyval \<Rightarrow> pyval \<Rightarrow> pydict \<Rightarrow> pydict" where
  "update_dict quantity expiration_date price d =
     d\<lparr>named := set_unless_none ''price'' price
                  (set_unless_none ''expiration_date'' expiration_date
                    (set_unless_none ''quantity'' quantity (named d)))\<rparr>"

text \<open>The loop of \<^verbatim>\<open>update_item\<close>; it changes the dicts in place, so the dicts changed
  before an exception stay changed.\<close>

fun update_loop :: "pyval \<Rightarrow> pyval \<Rightarrow> pyval \<Rightarrow> pyval \<Rightarrow> pydict list \<Rightarrow> exn option \<times> pydict list" where
  "update_loop item quantity expiration_date price [] = (None, [])"
| "update_loop item quantity expiration_date price (d # ds) =
     (case getitem d ''item'' of
        Inl e \<Rightarrow> (Some e, d # ds)
      | Inr v \<Rightarrow>
          (case update_loop item quantity expiration_date price ds of
             (e, ds') \<Rightarrow>
               (e, (if v = item then update_dict quantity expiration_date price d else d) # ds')))"

definition param_default :: "(string \<rightharpoonup> pyval) \<Rightarrow> string \<Rightarrow> pyval" where
  "param_default b k = (case b k of None \<Rightarrow> PNone | Some v \<Rightarrow> v)"

definition update_item_body :: "call \<Rightarrow> world \<Rightarrow> (exn + pyret) \<times> world" where
  "update_item_body c w =
     (case bind_params [''item'', ''quantity'', ''expiration_date'', ''price''] c of
        Inl e \<Rightarrow> (Inl e, w)
      | Inr b \<Rightarrow>
          (case b ''item'' of
             None \<Rightarrow> (Inl TypeError, w)
           | Some item \<Rightarrow>
               (case update_loop item (param_default b ''quantity'')
                       (param_default b ''expiration_date'') (param_default b ''price'') (mem w) of
                  (Some e, ds) \<Rightarrow> (Inl e, w\<lparr>mem := ds\<rparr>)
                | (None, ds) \<Rightarrow>
                    (case save_data ds (w\<lparr>mem := ds\<rparr>) of
                       (Some e, w') \<Rightarrow> (Inl e, w')
                     | (None, w') \<Rightarrow> (Inr RNone, w')))))"

definition update_item :: "call \<Rightarrow> world \<Rightarrow> (exn + pyret) \<times> world" where
  "update_item = progress_bar (check_item_present update_item_body)"

section \<open>Dates\<close>

text \<open>
  A calendar date as (year, month, day); the order on triples is the lexicographic one,
  which is the order of \<^verbatim>\<open>datetime\<close> values at midnight and of \<^verbatim>\<open>date\<close> values.
\<close>

type_synonym date = "nat \<times> nat \<times> nat"

definition digit_of :: "char \<Rightarrow> nat option" where
  "digit_of c = map_of (zip ''0123456789'' [0, 1, 2, 3, 4, 5, 6, 7, 8, 9]) c"

text \<open>\<^verbatim>\<open>%m\<close> accepts \<^verbatim>\<open>1[0-2]|0[1-9]|[1-9]\<close>.\<close>

fun month_of :: "string \<Rightarrow> nat option" where
  "month_of [a] = (case digit_of a of Some n \<Rightarrow> if 1 \<le> n then Some n else None | None \<Rightarrow> None)"
| "month_of [a, b] =
     (case (digit_of a, digit_of b) of
        (Some m, Some n) \<Rightarrow>
          if m = 1 \<and> n \<le> 2 then Some (10 + n)
          else if m = 0 \<and> 1 \<le> n then Some n
          else None
      | _ \<Rightarrow> None)"
| "month_of _ = None"

text \<open>\<^verbatim>\<open>%d\<close> accepts \<^verbatim>\<open>3[0-1]|[1-2]\d|0[1-9]|[1-9]| [1-9]\<close>.\<close>

fun day_of :: "string \<Rightarrow> nat option" where
  "day_of [a] = (case digit_of a of Some n \<Rightarrow> if 1 \<le> n then Some n else None | None \<Rightarrow> None)"
| "day_of [a, b] =
     (case digit_of b of
        None \<Rightarrow> None
      | Some n \<Rightarrow>
          if a = CHR '' '' then (if 1 \<le> n then Some n else None)
          else
            (case digit_of a of
               None \<Rightarrow> None
             | Some m \<Rightarrow>
                 if m = 3 \<and> n \<le> 1 then Some (30 + n)
                 else if m = 1 \<or> m = 2 then Some (10 * m + n)
                 else if m = 0 \<and> 1 \<le> n then Some n
                 else None))"
| "day_of _ = None"

text \<open>\<^verbatim>\<open>%Y\<close> accepts exactly four digits.\<close>

fun year_of :: "string \<Rightarrow> nat option" where
  "year_of [a, b, c, d] =
     (case (digit_of a, digit_of b, digit_of c, digit_of d) of
        (Some k, Some l, Some m, Some n) \<Rightarrow> Some (1000 * k + 100 * l + 10 * m + n)
      | _ \<Rightarrow> None)"
| "year_of _ = None"

definition leap :: "nat \<Rightarrow> bool" where
  "leap y \<longleftrightarrow> y mod 4 = 0 \<and> (y mod 100 \<noteq> 0 \<or> y mod 400 = 0)"

definition days_in_month :: "nat \<Rightarrow> nat \<Rightarrow> nat" where
  "days_in_month y m =
     (if m = 2 then (if leap y then 29 else 28)
      else if m = 4 \<or> m = 6 \<or> m = 9 \<or> m = 11 then 30
      else 31)"

text \<open>The date is built only when the year is at least 1 and the day exists in the month.\<close>

definition make_date :: "nat option \<Rightarrow> nat option \<Rightarrow> nat option \<Rightarrow> exn + date" where
  "make_date yo mo dayo =
     (case (yo, mo, dayo) of
        (Some y, Some m, Some d) \<Rightarrow>
          if 1 \<le> y \<and> d \<le> days_in_month y m then Inr (y, m, d) else Inl ValueError
      | _ \<Rightarrow> Inl ValueError)"

text \<open>
  \<^verbatim>\<open>datetime.strptime(s, '%Y-%m-%d')\<close>: four digits, a hyphen, a month of one or two
  characters, a hyphen, and a day that takes all that is left; anything else is a
  \<^verbatim>\<open>ValueError\<close>.
\<close>

fun strptime :: "string \<Rightarrow> exn + date" where
  "strptime (y1 # y2 # y3 # y4 # h1 # m1 # x # xs) =
     (if h1 \<noteq> CHR ''-'' then Inl ValueError
      else if x = CHR ''-'' then make_date (year_of [y1, y2, y3, y4]) (month_of [m1]) (day_of xs)
      else
        (case xs of
           h2 # ds \<Rightarrow>
             if h2 = CHR ''-''
             then make_date (year_of [y1, y2, y3, y4]) (month_of [m1, x]) (day_of ds)
             else Inl ValueError
         | [] \<Rightarrow> Inl ValueError))"
| "strptime _ = Inl ValueError"

text \<open>The sort key \<^verbatim>\<open>datetime.strptime(x['expiration_date'], '%Y-%m-%d')\<close>;
  \<^verbatim>\<open>strptime\<close> rejects \<^verbatim>\<open>None\<close> with a \<^verbatim>\<open>TypeError\<close>.\<close>

definition exp_key :: "pydict \<Rightarrow> exn + date" where
  "exp_key d =
     (case named d ''expiration_date'' of
        None \<Rightarrow> Inl KeyError
      | Some PNone \<Rightarrow> Inl TypeError
      | Some (PStr s) \<Rightarrow> strptime s)"

section \<open>The derived views\<close>

text \<open>\<^verbatim>\<open>sorted\<close> computes the key of every element first, in order.\<close>

fun keys_of :: "pydict list \<Rightarrow> exn + date list" where
  "keys_of [] = Inr []"
| "keys_of (d # ds) =
     (case exp_key d of
        Inl e \<Rightarrow> Inl e
      | Inr k \<Rightarrow> (case keys_of ds of Inl e \<Rightarrow> Inl e | Inr ks \<Rightarrow> Inr (k # ks)))"

text \<open>
  \<^verbatim>\<open>sort_by_expiration_date\<close>: \<^verbatim>\<open>sorted(data, key=...)\<close>. Python's \<^verbatim>\<open>sorted\<close> is a
  stable sort by the key, and so is \<open>sort_key\<close>; a stable sort by a key has one result.
\<close>

definition sort_by_expiration_date :: "pydict list \<Rightarrow> exn + pydict list" where
  "sort_by_expiration_date data =
     (case keys_of data of
        Inl e \<Rightarrow> Inl e
      | Inr ks \<Rightarrow> Inr (map snd (sort_key fst (zip ks data))))"

text \<open>A loop that prints one line per record; the lines printed before an exception
  stay printed.\<close>

fun print_rows :: "(pydict \<Rightarrow> exn + string) \<Rightarrow> pydict list \<Rightarrow> string \<Rightarrow> exn option \<times> string" where
  "print_rows line [] out = (None, out)"
| "print_rows line (d # ds) out =
     (case line d of
        Inl e \<Rightarrow> (Some e, out)
      | Inr s \<Rightarrow> print_rows line ds (out @ s @ nl))"

text \<open>The four cells \<^verbatim>\<open>{item['item']:<20} | {item['quantity']:<10} |
  {item['expiration_date']:<20} | {item['price']:<10}|\<close>, evaluated left to right.\<close>

definition cell :: "pydict \<Rightarrow> string \<Rightarrow> nat \<Rightarrow> exn + string" where
  "cell d k n = (case getitem d k of Inl e \<Rightarrow> Inl e | Inr v \<Rightarrow> format_left n v)"

definition cells :: "pydict \<Rightarrow> exn + string" where
  "cells d =
     (case cell d ''item'' 20 of
        Inl e \<Rightarrow> Inl e
      | Inr a \<Rightarrow>
          (case cell d ''quantity'' 10 of
             Inl e \<Rightarrow> Inl e
           | Inr b \<Rightarrow>
               (case cell d ''expiration_date'' 20 of
                  Inl e \<Rightarrow> Inl e
                | Inr c \<Rightarrow>
                    (case cell d ''price'' 10 of
                       Inl e \<Rightarrow> Inl e
                     | Inr p \<Rightarrow> Inr (a @ '' | '' @ b @ '' | '' @ c @ '' | '' @ p @ ''|'')))))"

definition report_line :: "pydict \<Rightarrow> exn + string" where
  "report_line d = (case cells d of Inl e \<Rightarrow> Inl e | Inr s \<Rightarrow> Inr (''|'' @ s))"

definition heading :: string where
  "heading = ljust 20 ''Item'' @ '' | '' @ ljust 10 ''Quantity'' @ '' | '' @
     ljust 20 ''Expiration Date'' @ '' | '' @ ljust 10 ''Price'' @ ''|''"

definition rule_line :: "nat \<Rightarrow> string" where
  "rule_line n = replicate n (CHR ''-'') @ nl"

definition get_full_report_body :: "unit \<Rightarrow> world \<Rightarrow> (exn + pyret) \<times> world" where
  "get_full_report_body u w =
     (if mem w = [] then (Inr RNone, w\<lparr>stdout := stdout w @ ''No items in the inventory.'' @ nl\<rparr>)
      else
        (case sort_by_expiration_date (mem w) of
           Inl e \<Rightarrow> (Inl e, w)
         | Inr sorted_data \<Rightarrow>
             (case print_rows report_line sorted_data
                     (stdout w @ nl @ ''Full Inventory Report'' @ nl @ rule_line 71 @
                      ''|'' @ heading @ nl @ rule_line 71) of
                (Some e, out) \<Rightarrow> (Inl e, w\<lparr>stdout := out\<rparr>)
              | (None, out) \<Rightarrow> (Inr RNone, w\<lparr>stdout := out @ rule_line 71\<rparr>))))"

definition get_full_report :: "world \<Rightarrow> (exn + pyret) \<times> world" where
  "get_full_report = progress_bar get_full_report_body ()"

text \<open>The comprehension of \<^verbatim>\<open>get_expired_items\<close>:
  \<^verbatim>\<open>[d for d in data if strptime(d['expiration_date'], '%Y-%m-%d').date() < today]\<close>.\<close>

fun expired_filter :: "date \<Rightarrow> pydict list \<Rightarrow> exn + pydict list" where
  "expired_filter today [] = Inr []"
| "expired_filter today (d # ds) =
     (case exp_key d of
        Inl e \<Rightarrow> Inl e
      | Inr k \<Rightarrow>
          (case expired_filter today ds of
             Inl e \<Rightarrow> Inl e
           | Inr r \<Rightarrow> Inr (if k < today then d # r else r)))"

text \<open>\<^verbatim>\<open>get_expired_items\<close>; \<open>today\<close> is what \<^verbatim>\<open>datetime.today().date()\<close> returns
  during the call.\<close>

definition get_expired_items_body :: "date \<Rightarrow> world \<Rightarrow> (exn + pyret) \<times> world" where
  "get_expired_items_body today w =
     (case expired_filter today (mem w) of
        Inl e \<Rightarrow> (Inl e, w)
      | Inr [] \<Rightarrow> (Inr (RList []), w\<lparr>stdout := stdout w @ ''No expired items found.'' @ nl\<rparr>)
      | Inr (x # xs) \<Rightarrow>
          (case sort_by_expiration_date (x # xs) of
             Inl e \<Rightarrow> (Inl e, w)
           | Inr expired_items \<Rightarrow>
               (case print_rows cells expired_items
                       (stdout w @ nl @ ''Expired Items'' @ nl @ rule_line 70 @
                        heading @ nl @ rule_line 70) of
                  (Some e, out) \<Rightarrow> (Inl e, w\<lparr>stdout := out\<rparr>)
                | (None, out) \<Rightarrow> (Inr (RList expired_items), w\<lparr>stdout := out @ rule_line 70\<rparr>))))"

definition get_expired_items :: "date \<Rightarrow> world \<Rightarrow> (exn + pyret) \<times> world" where
  "get_expired_items = progress_bar get_expired_items_body"

section \<open>The words of the specification\<close>

text \<open>A record's name equals the target exactly, or up to the case of its letters.\<close>

definition name_matches :: "string \<Rightarrow> pydict \<Rightarrow> bool" where
  "name_matches name d \<longleftrightarrow> named d ''item'' = Some (PStr name)"

definition name_matches_ci :: "string \<Rightarrow> pydict \<Rightarrow> bool" where
  "name_matches_ci name d \<longleftrightarrow>
     (case named d ''item'' of Some (PStr s) \<Rightarrow> lower s = lower name | _ \<Rightarrow> False)"

text \<open>A record with an entry for its name, and a record whose name is a string.\<close>

definition has_item_key :: "pydict \<Rightarrow> bool" where
  "has_item_key d \<longleftrightarrow> named d ''item'' \<noteq> None"

definition has_name :: "pydict \<Rightarrow> bool" where
  "has_name d \<longleftrightarrow> (case named d ''item'' of Some (PStr s) \<Rightarrow> True | _ \<Rightarrow> False)"

text \<open>
  What a call of \<^verbatim>\<open>update_item\<close> for \<open>name\<close> with the arguments \<open>q\<close>, \<open>e\<close>, \<open>p\<close> may
  do to a record \<open>d\<close>, giving \<open>d'\<close>: a record of another name is left as it is; of the
  three fields, one changes exactly when the record has the name and the argument is not
  \<^verbatim>\<open>None\<close>, and then to the argument; every other entry is kept.
\<close>

definition update_frame :: "string \<Rightarrow> pyval \<Rightarrow> pyval \<Rightarrow> pyval \<Rightarrow> pydict \<Rightarrow> pydict \<Rightarrow> bool" where
  "update_frame name q e p d d' \<longleftrightarrow>
     rest d' = rest d \<and>
     (\<not> name_matches name d \<longrightarrow> d' = d) \<and>
     (\<forall>k. k \<noteq> ''quantity'' \<and> k \<noteq> ''expiration_date'' \<and> k \<noteq> ''price'' \<longrightarrow> named d' k = named d k) \<and>
     named d' ''quantity'' =
       (if name_matches name d \<and> q \<noteq> PNone then Some q else named d ''quantity'') \<and>
     named d' ''expiration_date'' =
       (if name_matches name d \<and> e \<noteq> PNone then Some e else named d ''expiration_date'') \<and>
     named d' ''price'' =
       (if name_matches name d \<and> p \<noteq> PNone then Some p else named d ''price'')"

text \<open>
  A record whose expiration date parses, and the date it parses to (the sort key and the
  date compared with today).
\<close>

definition has_date :: "pydict \<Rightarrow> bool" where
  "has_date d \<longleftrightarrow> (case exp_key d of Inr k \<Rightarrow> True | Inl e \<Rightarrow> False)"

definition date_of :: "pydict \<Rightarrow> date" where
  "date_of d = (case exp_key d of Inr k \<Rightarrow> k | Inl e \<Rightarrow> (0, 0, 0))"

text \<open>The line of the tables for a record whose four printed fields are strings.\<close>

definition field :: "pydict \<Rightarrow> string \<Rightarrow> string" where
  "field d k = (case named d k of Some (PStr s) \<Rightarrow> s | _ \<Rightarrow> [])"

definition table_row :: "pydict \<Rightarrow> string" where
  "table_row d =
     ljust 20 (field d ''item'') @ '' | '' @ ljust 10 (field d ''quantity'') @ '' | '' @
     ljust 20 (field d ''expiration_date'') @ '' | '' @ ljust 10 (field d ''price'') @ ''|''"

text \<open>A record none of whose eight fields is longer than the reader accepts, and a
  value that is not.\<close>

definition short_fields :: "pydict \<Rightarrow> bool" where
  "short_fields d \<longleftrightarrow> list_all (\<lambda>k. length (field d k) \<le> field_size_limit) fieldnames"

definition short_value :: "pyval \<Rightarrow> bool" where
  "short_value v \<longleftrightarrow> length (csv_field v) \<le> field_size_limit"

text \<open>
  How a row of the file is read under the header \<open>fns\<close>, giving the dict \<open>d\<close>: the keys
  of \<open>d\<close> are the names of the header; under a name (at its last place in the header,
  should it stand there twice) \<open>d\<close> holds the field of the row at that place, or
  \<^verbatim>\<open>None\<close> when the row is too short to have one; and the fields of the row beyond
  the header are kept under the key \<^verbatim>\<open>None\<close>.
\<close>

definition reads_as :: "string list \<Rightarrow> string list \<Rightarrow> pydict \<Rightarrow> bool" where
  "reads_as fns row d \<longleftrightarrow>
     dom (named d) = set fns \<and>
     (\<forall>j<length fns. (\<forall>i<length fns. j < i \<longrightarrow> fns ! i \<noteq> fns ! j) \<longrightarrow>
        named d (fns ! j) = Some (if j < length row then PStr (row ! j) else PNone)) \<and>
     rest d = (if length fns < length row then Some (drop (length fns) row) else None)"

text \<open>
  The calls of \<^verbatim>\<open>main.py\<close>: \<^verbatim>\<open>remove_item(data, item=item)\<close> and
  \<^verbatim>\<open>update_item(data, item=item, quantity=..., expiration_date=..., price=...)\<close>, where
  a field left blank is passed as \<^verbatim>\<open>None\<close>; and the call of the module's docstring,
  \<^verbatim>\<open>remove_item(data, "Tablet")\<close>, with the name in second position.
\<close>

definition keyword_call :: "string \<Rightarrow> call" where
  "keyword_call name = ([], [(''item'', PStr name)])"

definition update_call :: "string \<Rightarrow> pyval \<Rightarrow> pyval \<Rightarrow> pyval \<Rightarrow> call" where
  "update_call name quantity expiration_date price =
     ([], [(''item'', PStr name), (''quantity'', quantity),
           (''expiration_date'', expiration_date), (''price'', price)])"

definition positional_call :: "string \<Rightarrow> call" where
  "positional_call name = ([PStr name], [])"

section \<open>Example records\<close>

definition record8 ::
  "string \<Rightarrow> string \<Rightarrow> string \<Rightarrow> string \<Rightarrow> string \<Rightarrow> string \<Rightarrow> string \<Rightarrow> string \<Rightarrow> pydict" where
  "record8 i n g m b q e p =
     \<lparr>named = [''id'' \<mapsto> PStr i, ''item'' \<mapsto> PStr n, ''gtin'' \<mapsto> PStr g, ''mpn'' \<mapsto> PStr m,
        ''brand'' \<mapsto> PStr b, ''quantity'' \<mapsto> PStr q, ''expiration_date'' \<mapsto> PStr e,
        ''price'' \<mapsto> PStr p],
      rest = None\<rparr>"

definition widget :: pydict where
  "widget = record8 ''1'' ''Widget'' ''4006381333931'' ''96385074'' ''Acme'' ''5''
     ''2024-01-09'' ''4.50''"

definition gadget :: pydict where
  "gadget = record8 ''2'' ''Gadget'' ''4006381333948'' ''96385081'' ''Acme'' ''7''
     ''2024-01-10'' ''12.00''"

definition widget_small :: pydict where
  "widget_small = record8 ''3'' ''widget'' ''4006381333955'' ''96385098'' ''Bolt'' ''1''
     ''2023-06-01'' ''3.00''"

text \<open>A well-formed record whose name has one character more than the reader accepts.\<close>

definition long_name_record :: pydict where
  "long_name_record = record8 ''9'' (replicate 131073 (CHR ''a'')) ''4006381334006''
     ''96385142'' ''Acme'' ''1'' ''2030-01-01'' ''1.00''"

text \<open>A file whose only data row has two fields, and a file without the header row.\<close>

definition short_row_world :: world where
  "short_row_world =
     \<lparr>mem = [], disk = Some (Rows [fieldnames, [''1'', ''Widget'']]), writes = 0, stdout = []\<rparr>"

definition short_row_record :: pydict where
  "short_row_record =
     \<lparr>named = [''id'' \<mapsto> PStr ''1'', ''item'' \<mapsto> PStr ''Widget'', ''gtin'' \<mapsto> PNone,
        ''mpn'' \<mapsto> PNone, ''brand'' \<mapsto> PNone, ''quantity'' \<mapsto> PNone,
        ''expiration_date'' \<mapsto> PNone, ''price'' \<mapsto> PNone],
      rest = None\<rparr>"

definition no_header_world :: world where
  "no_header_world =
     \<lparr>mem = [],
      disk = Some (Rows [[''1'', ''Widget'', ''4006381333931'', ''96385074'', ''Acme'', ''5'',
                          ''2024-01-09'', ''4.50'']]),
      writes = 0, stdout = []\<rparr>"

text \<open>An inventory of three records, saved.\<close>

definition stocked :: world where
  "stocked =
     \<lparr>mem = [widget, gadget, widget_small],
      disk = Some (Rows [fieldnames,
        [''1'', ''Widget'', ''4006381333931'', ''96385074'', ''Acme'', ''5'', ''2024-01-09'', ''4.50''],
        [''2'', ''Gadget'', ''4006381333948'', ''96385081'', ''Acme'', ''7'', ''2024-01-10'', ''12.00''],
        [''3'', ''widget'', ''4006381333955'', ''96385098'', ''Bolt'', ''1'', ''2023-06-01'', ''3.00'']]),
      writes = 0, stdout = []\<rparr>"

definition fake0 :: fake where
  "fake0 = \<lparr>uuid4 = ''7d0c2e0a-58a4-4f0e-9b57-2f5f0a3f3c11'', ean13 = ''4006381333962'',
     ean8 = ''96385104'', company = ''Nut and Sons''\<rparr>"

text \<open>Three batches with the expiration dates 2024-01-01, 2023-06-01, 2023-06-01, added in
  that order.\<close>

definition batch_a :: pydict where
  "batch_a = record8 ''a'' ''Milk'' ''4006381333979'' ''96385111'' ''Dairy'' ''10''
     ''2024-01-01'' ''1.10''"

definition batch_b :: pydict where
  "batch_b = record8 ''b'' ''Milk'' ''4006381333986'' ''96385128'' ''Dairy'' ''20''
     ''2023-06-01'' ''1.20''"

definition batch_c :: pydict where
  "batch_c = record8 ''c'' ''Milk'' ''4006381333993'' ''96385135'' ''Dairy'' ''30''
     ''2023-06-01'' ''1.30''"

definition shelf :: world where
  "shelf = \<lparr>mem = [batch_a, batch_b, batch_c], disk = None, writes = 0, stdout = []\<rparr>"

section \<open>The record store: round trip and reading\<close>

lemma fold_dict_set_map_of:
  "distinct (map fst kvs) \<Longrightarrow>
   fold (\<lambda>kv. dict_set (fst kv) (snd kv)) kvs m = m ++ map_of kvs"
proof (induction kvs arbitrary: m)
  case Nil
  then show ?case by simp
next
  case (Cons kv kvs)
  obtain k v where kv: "kv = (k, v)" by (cases kv)
  from Cons.prems kv have notin: "k \<notin> dom (map_of kvs)" and dist: "distinct (map fst kvs)"
    by (auto simp: dom_map_of_conv_image_fst)
  have "fold (\<lambda>kv. dict_set (fst kv) (snd kv)) (kv # kvs) m = dict_set k v m ++ map_of kvs"
    using Cons.IH [OF dist, of "dict_set k v m"] kv by simp
  also have "\<dots> = m ++ map_of (kv # kvs)"
    using notin kv by (simp add: dict_set_def map_add_upd_left)
  finally show ?case .
qed

lemma distinct_fieldnames: "distinct fieldnames"
  by (simp add: fieldnames_def)

lemma well_formed_field:
  assumes "well_formed d" and "k \<in> set fieldnames"
  obtains s where "named d k = Some (PStr s)"
proof -
  from assms have "case named d k of Some (PStr s) \<Rightarrow> True | _ \<Rightarrow> False"
    by (simp add: well_formed_def list_all_iff)
  then obtain s where "named d k = Some (PStr s)"
    by (cases "named d k"; cases "the (named d k)") auto
  then show thesis by (rule that)
qed

lemma well_formed_record8: "well_formed (record8 i n g m b q e p)"
  by (simp add: well_formed_def record8_def fieldnames_def)

lemma writerows_well_formed:
  "list_all well_formed R \<Longrightarrow>
   writerows R rows =
     (None, rows @ map (\<lambda>d. map (\<lambda>k. csv_field (the (named d k))) fieldnames) R)"
proof (induction R arbitrary: rows)
  case Nil
  then show ?case by simp
next
  case (Cons d R)
  from Cons.prems have wf: "well_formed d" and tail: "list_all well_formed R" by simp_all
  from wf have "dict_to_list d = Inr (map (\<lambda>k. csv_field (the (named d k))) fieldnames)"
    by (auto simp: well_formed_def dict_to_list_def list_all_iff split: option.splits)
  with Cons.IH [OF tail] show ?case by simp
qed

lemma dict_of_row_well_formed:
  assumes "well_formed d"
  shows "dict_of_row fieldnames (map (\<lambda>k. csv_field (the (named d k))) fieldnames) = d"
proof -
  let ?g = "\<lambda>k. csv_field (the (named d k))"
  have "map_of (zip fieldnames (map (\<lambda>k. PStr (?g k)) fieldnames)) k = named d k" for k
  proof (cases "k \<in> set fieldnames")
    case True
    with assms obtain s where "named d k = Some (PStr s)"
      by (auto elim: well_formed_field)
    with True show ?thesis by (simp add: map_of_zip_map)
  next
    case False
    with assms have "named d k = None"
      by (auto simp: well_formed_def)
    with False show ?thesis by (simp add: map_of_zip_map)
  qed
  then have "map_of (zip fieldnames (map (\<lambda>k. PStr (?g k)) fieldnames)) = named d"
    by (rule ext)
  moreover have "named (dict_of_row fieldnames (map ?g fieldnames)) =
        map_of (zip fieldnames (map (\<lambda>k. PStr (?g k)) fieldnames))"
    by (simp add: dict_of_row_def fold_dict_set_map_of distinct_fieldnames o_def)
  moreover have "rest (dict_of_row fieldnames (map ?g fieldnames)) = rest d"
    using assms by (simp add: dict_of_row_def well_formed_def)
  ultimately show ?thesis by simp
qed

lemma save_data_well_formed:
  assumes "list_all well_formed R"
  shows "save_data R w =
     (None, w\<lparr>disk := Some (Rows (fieldnames # map (\<lambda>d. map (\<lambda>k. csv_field (the (named d k))) fieldnames) R)),
              writes := Suc (writes w)\<rparr>)"
  by (simp add: save_data_def writerows_well_formed [OF assms])

lemma field_well_formed:
  assumes "well_formed d" and "k \<in> set fieldnames"
  shows "csv_field (the (named d k)) = field d k"
proof -
  from assms obtain s where "named d k = Some (PStr s)" by (rule well_formed_field)
  then show ?thesis by (simp add: field_def)
qed

lemma within_limit_saved:
  assumes "list_all well_formed R" and "list_all short_fields R"
  shows "within_limit (fieldnames # map (\<lambda>d. map (\<lambda>k. csv_field (the (named d k))) fieldnames) R)"
proof -
  have "list_all (\<lambda>f. length f \<le> field_size_limit) fieldnames"
    by (simp add: fieldnames_def field_size_limit_def)
  moreover have "list_all (\<lambda>f. length f \<le> field_size_limit)
      (map (\<lambda>k. csv_field (the (named d k))) fieldnames)" if "d \<in> set R" for d
  proof -
    from that assms have "well_formed d" and "short_fields d" by (simp_all add: list_all_iff)
    then show ?thesis
      by (simp add: list_all_iff short_fields_def field_well_formed)
  qed
  ultimately show ?thesis
    by (simp add: within_limit_def list_all_iff)
qed

lemma load_saved_rows:
  assumes "list_all well_formed R" and "list_all short_fields R"
    and "disk w = Some (Rows (fieldnames # map (\<lambda>d. map (\<lambda>k. csv_field (the (named d k))) fieldnames) R))"
  shows "load_data w = Inr R"
proof -
  let ?row = "\<lambda>d. map (\<lambda>k. csv_field (the (named d k))) fieldnames"
  have nonempty: "filter (\<lambda>r. r \<noteq> []) (map ?row R) = map ?row R"
    by (induction R) (simp_all add: fieldnames_def)
  have readback: "map (dict_of_row fieldnames) (map ?row R) = R"
    using assms(1) by (induction R) (simp_all add: dict_of_row_well_formed)
  show ?thesis
    using nonempty readback assms(3) within_limit_saved [OF assms(1,2)]
    by (simp add: load_data_def)
qed

lemma short_fields_record8:
  "short_fields (record8 i n g m b q e p) \<longleftrightarrow>
     length i \<le> field_size_limit \<and> length n \<le> field_size_limit \<and>
     length g \<le> field_size_limit \<and> length m \<le> field_size_limit \<and>
     length b \<le> field_size_limit \<and> length q \<le> field_size_limit \<and>
     length e \<le> field_size_limit \<and> length p \<le> field_size_limit"
  by (simp add: short_fields_def record8_def fieldnames_def field_def)

text \<open>
  C5, as the code has it. For every record set whose records all have exactly the eight
  fields, each a string of at most 131072 characters, \<^verbatim>\<open>save_data\<close> raises nothing and
  \<^verbatim>\<open>load_data\<close> then returns the same record set: the same records, with the same field
  values, in the same order.
\<close>

theorem load_save_roundtrip:
  "list_all well_formed R \<Longrightarrow> list_all short_fields R \<Longrightarrow>
   fst (save_data R w) = None \<and> load_data (snd (save_data R w)) = Inr R"
proof -
  assume wf: "list_all well_formed R" and short: "list_all short_fields R"
  have "load_data (snd (save_data R w)) = Inr R"
    by (rule load_saved_rows [OF wf short]) (simp add: save_data_well_formed [OF wf])
  then show ?thesis
    by (simp add: save_data_well_formed [OF wf])
qed

theorem load_save_roundtrip_witness:
  "list_all well_formed [widget, gadget] \<and> list_all short_fields [widget, gadget] \<and>
   fst (save_data [widget, gadget] short_row_world) = None \<and>
   load_data (snd (save_data [widget, gadget] short_row_world)) = Inr [widget, gadget]"
proof -
  have wf: "list_all well_formed [widget, gadget]"
    by (simp add: widget_def gadget_def well_formed_record8)
  have short: "list_all short_fields [widget, gadget]"
    by (simp add: widget_def gadget_def short_fields_record8 field_size_limit_def)
  show ?thesis
    using wf short load_save_roundtrip [OF wf short, of short_row_world] by simp
qed

text \<open>
  Against C5 as stated: a record with all eight fields present as strings, whose name has
  131073 characters, is saved without an exception, and \<^verbatim>\<open>load_data\<close> then raises
  \<^verbatim>\<open>csv.Error\<close> instead of returning the record.
\<close>

theorem load_save_long_field_counterexample:
  "list_all well_formed [long_name_record] \<and>
   fst (save_data [long_name_record] short_row_world) = None \<and>
   load_data (snd (save_data [long_name_record] short_row_world)) = Inl CsvError"
proof -
  have wf: "list_all well_formed [long_name_record]"
    by (simp add: long_name_record_def well_formed_record8)
  have "\<not> within_limit (fieldnames #
      map (\<lambda>d. map (\<lambda>k. csv_field (the (named d k))) fieldnames) [long_name_record])"
    by (simp add: within_limit_def long_name_record_def record8_def fieldnames_def
        field_size_limit_def)
  then show ?thesis
    using wf by (simp add: save_data_well_formed [OF wf] load_data_def)
qed

text \<open>How one row is read: \<open>dict_of_row\<close> is \<open>reads_as\<close>.\<close>

lemma fold_dict_set_rev:
  "fold (\<lambda>kv. dict_set (fst kv) (snd kv)) kvs m = m ++ map_of (rev kvs)"
  by (induction kvs arbitrary: m) (simp_all add: dict_set_def)

lemma map_of_rev_last:
  assumes "j < length kvs"
    and "\<forall>i<length kvs. j < i \<longrightarrow> fst (kvs ! i) \<noteq> fst (kvs ! j)"
  shows "map_of (rev kvs) (fst (kvs ! j)) = Some (snd (kvs ! j))"
  using assms
proof (induction kvs rule: rev_induct)
  case Nil
  then show ?case by simp
next
  case (snoc x xs)
  show ?case
  proof (cases "j = length xs")
    case True
    then show ?thesis by simp
  next
    case False
    with snoc.prems(1) have j: "j < length xs" by simp
    have "fst ((xs @ [x]) ! length xs) \<noteq> fst ((xs @ [x]) ! j)"
      using snoc.prems(2) [rule_format, of "length xs"] j by simp
    then have differ: "fst x \<noteq> fst (xs ! j)"
      using j by (simp add: nth_append)
    have "\<forall>i<length xs. j < i \<longrightarrow> fst (xs ! i) \<noteq> fst (xs ! j)"
    proof (intro allI impI)
      fix i assume i: "i < length xs" and ji: "j < i"
      have "fst ((xs @ [x]) ! i) \<noteq> fst ((xs @ [x]) ! j)"
        using snoc.prems(2) [rule_format, of i] i ji by simp
      with i j show "fst (xs ! i) \<noteq> fst (xs ! j)" by (simp add: nth_append)
    qed
    with snoc.IH j have "map_of (rev xs) (fst (xs ! j)) = Some (snd (xs ! j))" by simp
    with differ j show ?thesis by (simp add: nth_append)
  qed
qed

lemma row_pairs_nth:
  assumes "j < length fns"
  shows "(zip fns (map PStr row) @ map (\<lambda>k. (k, PNone)) (drop (length row) fns)) ! j =
     (fns ! j, if j < length row then PStr (row ! j) else PNone)"
proof (cases "j < length row")
  case True
  with assms show ?thesis by (simp add: nth_append)
next
  case False
  then have "length row + (j - length row) = j" by simp
  with False assms show ?thesis by (simp add: nth_append min_def)
qed

lemma row_pairs_length:
  "length (zip fns (map PStr row) @ map (\<lambda>k. (k, PNone)) (drop (length row) fns)) = length fns"
  by simp

lemma row_pairs_keys:
  "map fst (zip fns (map PStr row) @ map (\<lambda>k. (k, PNone)) (drop (length row) fns)) = fns"
proof -
  have "map fst (zip fns (map PStr row)) = take (length row) fns"
    by (simp add: map_fst_zip_take min_def take_all)
  then show ?thesis by (simp add: o_def)
qed

lemma reads_as_dict_of_row: "reads_as fns row (dict_of_row fns row)"
proof -
  let ?kvs = "zip fns (map PStr row) @ map (\<lambda>k. (k, PNone)) (drop (length row) fns)"
  have named: "named (dict_of_row fns row) = map_of (rev ?kvs)"
    by (simp add: dict_of_row_def fold_dict_set_rev)
  have "dom (map_of (rev ?kvs)) = set (map fst ?kvs)"
    by (simp only: dom_map_of_conv_image_fst set_rev set_map)
  then have keys: "dom (named (dict_of_row fns row)) = set fns"
    by (simp only: named row_pairs_keys)
  have vals: "named (dict_of_row fns row) (fns ! j) =
      Some (if j < length row then PStr (row ! j) else PNone)"
    if j: "j < length fns" and last: "\<forall>i<length fns. j < i \<longrightarrow> fns ! i \<noteq> fns ! j" for j
  proof -
    have "\<forall>i<length ?kvs. j < i \<longrightarrow> fst (?kvs ! i) \<noteq> fst (?kvs ! j)"
    proof (intro allI impI)
      fix i assume "i < length ?kvs" and ji: "j < i"
      then have i: "i < length fns" by (simp only: row_pairs_length)
      from last i ji have "fns ! i \<noteq> fns ! j" by blast
      then show "fst (?kvs ! i) \<noteq> fst (?kvs ! j)"
        unfolding row_pairs_nth [OF i] row_pairs_nth [OF j] fst_conv .
    qed
    moreover have "j < length ?kvs" using j by (simp only: row_pairs_length)
    ultimately have "map_of (rev ?kvs) (fst (?kvs ! j)) = Some (snd (?kvs ! j))"
      by (rule map_of_rev_last [rotated])
    then show ?thesis
      by (simp only: named row_pairs_nth [OF j] fst_conv snd_conv)
  qed
  have "rest (dict_of_row fns row) =
      (if length fns < length row then Some (drop (length fns) row) else None)"
    by (simp add: dict_of_row_def)
  with keys vals show ?thesis
    by (simp add: reads_as_def)
qed

text \<open>
  C7, as the code has it. Let the file be present, be UTF-8 text and hold no field of
  more than 131072 characters. Then \<^verbatim>\<open>load_data\<close> raises nothing and reads the file in
  full: an empty file gives the empty list; otherwise the first row is the header, whatever
  it holds, and the non-empty rows after it become the records, one by one and in order,
  each read as \<open>reads_as\<close> says, whatever its number of fields: a short row gets
  \<^verbatim>\<open>None\<close> for the fields it lacks, a long row keeps its surplus under the key
  \<^verbatim>\<open>None\<close>; and no row after the header gives the empty list.
\<close>

theorem load_data_present:
  assumes "disk w = Some (Rows rows)" and "within_limit rows"
  shows "(rows = [] \<longrightarrow> load_data w = Inr []) \<and>
         (\<forall>fns rs. rows = fns # rs \<longrightarrow>
            (\<exists>R. load_data w = Inr R \<and>
                 list_all2 (reads_as fns) (filter (\<lambda>r. r \<noteq> []) rs) R \<and>
                 (filter (\<lambda>r. r \<noteq> []) rs = [] \<longrightarrow> R = [])))"
proof (intro conjI allI impI)
  assume "rows = []"
  with assms show "load_data w = Inr []" by (simp add: load_data_def)
next
  fix fns rs assume rows: "rows = fns # rs"
  have "list_all2 (reads_as fns) (filter (\<lambda>r. r \<noteq> []) rs)
      (map (dict_of_row fns) (filter (\<lambda>r. r \<noteq> []) rs))"
    by (simp add: list_all2_map2 list_all2_same reads_as_dict_of_row)
  with assms rows
  show "\<exists>R. load_data w = Inr R \<and>
      list_all2 (reads_as fns) (filter (\<lambda>r. r \<noteq> []) rs) R \<and>
      (filter (\<lambda>r. r \<noteq> []) rs = [] \<longrightarrow> R = [])"
    by (simp add: load_data_def)
qed

text \<open>When it does raise: the file is missing, is not UTF-8 text, or holds a field that
  is too long.\<close>

lemma load_data_raises:
  "load_data w = Inl e \<longleftrightarrow>
     (disk w = None \<and> e = FileNotFoundError) \<or>
     (disk w = Some Undecodable \<and> e = UnicodeDecodeError) \<or>
     (\<exists>rows. disk w = Some (Rows rows) \<and> \<not> within_limit rows \<and> e = CsvError)"
  by (auto simp: load_data_def split: option.splits csv_file.splits)

theorem load_data_present_witness:
  "disk short_row_world = Some (Rows [fieldnames, [''1'', ''Widget'']]) \<and>
   within_limit [fieldnames, [''1'', ''Widget'']] \<and>
   (\<exists>R. load_data short_row_world = Inr R \<and>
        list_all2 (reads_as fieldnames) [[''1'', ''Widget'']] R)"
proof -
  have d: "disk short_row_world = Some (Rows [fieldnames, [''1'', ''Widget'']])"
    by (simp add: short_row_world_def)
  have l: "within_limit [fieldnames, [''1'', ''Widget'']]"
    by (simp add: within_limit_def fieldnames_def field_size_limit_def)
  from load_data_present [OF d l]
  have "\<exists>R. load_data short_row_world = Inr R \<and>
      list_all2 (reads_as fieldnames) (filter (\<lambda>r. r \<noteq> []) [[''1'', ''Widget'']]) R"
    by blast
  then show ?thesis
    using d l by simp
qed

text \<open>
  Against C7 as stated: a data row with two fields instead of eight is read as a record
  whose six missing fields are \<^verbatim>\<open>None\<close>, and a file without the header row is read as a
  file without records; neither raises.
\<close>

theorem load_data_malformed_counterexample:
  "load_data short_row_world = Inr [short_row_record] \<and> load_data no_header_world = Inr []"
  by (simp add: load_data_def within_limit_def field_size_limit_def short_row_world_def
      short_row_record_def no_header_world_def dict_of_row_def fieldnames_def dict_set_def)

section \<open>The presence guard and the removal\<close>

lemma any_item_keys:
  "\<forall>d\<in>set ds. named d ''item'' \<noteq> None \<Longrightarrow>
   any_item item ds = Inr (\<exists>d\<in>set ds. named d ''item'' = Some item)"
  by (induction ds) (auto simp: getitem_def)

lemma guard_found:
  assumes "\<forall>d\<in>set (mem w). named d ''item'' \<noteq> None"
    and "''data'' \<notin> set (map fst (snd c))"
    and "\<exists>d\<in>set (mem w). named d ''item'' = Some (kwargs_get (snd c) ''item'')"
  shows "check_item_present func c w = func c w"
  using assms by (simp add: check_item_present_def any_item_keys)

lemma guard_not_found:
  assumes "\<forall>d\<in>set (mem w). named d ''item'' \<noteq> None"
    and "''data'' \<notin> set (map fst (snd c))"
    and "\<not> (\<exists>d\<in>set (mem w). named d ''item'' = Some (kwargs_get (snd c) ''item''))"
  shows "check_item_present func c w =
     (Inr RNone, w\<lparr>stdout := stdout w @ not_found_notice (kwargs_get (snd c) ''item'')\<rparr>)"
  using assms by (simp add: check_item_present_def any_item_keys)

lemma well_formed_item:
  assumes "well_formed d"
  obtains s where "named d ''item'' = Some (PStr s)"
proof -
  have "''item'' \<in> set fieldnames" by (simp add: fieldnames_def)
  with assms show thesis by (rule well_formed_field) (rule that)
qed

lemma remove_filter_well_formed:
  "list_all well_formed ds \<Longrightarrow>
   remove_filter (PStr name) ds = Inr (filter (\<lambda>d. \<not> name_matches_ci name d) ds)"
proof (induction ds)
  case Nil
  then show ?case by simp
next
  case (Cons d ds)
  from Cons.prems obtain s where "named d ''item'' = Some (PStr s)"
    by (auto elim: well_formed_item)
  with Cons show ?case
    by (simp add: getitem_def name_matches_ci_def)
qed

lemma bind_item_keyword:
  "bind_params [''item''] ([], [(''item'', v)]) = Inr [''item'' \<mapsto> v]"
  by (simp add: bind_params_def)

lemma remove_item_body_well_formed:
  assumes "list_all well_formed (mem w)"
  shows "remove_item_body ([], [(''item'', PStr name)]) w =
     (Inr RNone,
      w\<lparr>disk := Some (Rows (fieldnames # map (\<lambda>d. map (\<lambda>k. csv_field (the (named d k))) fieldnames)
                         (filter (\<lambda>d. \<not> name_matches_ci name d) (mem w)))),
        writes := Suc (writes w),
        stdout := stdout w @ ''Item '' @ sq @ name @ sq @ '' removed successfully.'' @ nl\<rparr>)"
proof -
  have kept: "list_all well_formed (filter (\<lambda>d. \<not> name_matches_ci name d) (mem w))"
    using assms by (simp add: list_all_iff)
  show ?thesis
    by (simp add: remove_item_body_def bind_item_keyword remove_filter_well_formed [OF assms]
        save_data_well_formed [OF kept])
qed

lemma progress_bar_apply:
  "progress_bar func a w = func a (w\<lparr>stdout := stdout w @ progress_output\<rparr>)"
  by (simp add: progress_bar_def)

lemma well_formed_has_item:
  "list_all well_formed ds \<Longrightarrow> \<forall>d\<in>set ds. named d ''item'' \<noteq> None"
  by (auto simp: list_all_iff elim: well_formed_item)

lemma remove_item_found:
  assumes wf: "list_all well_formed (mem w)"
    and found: "\<exists>d\<in>set (mem w). name_matches name d"
  shows "remove_item (keyword_call name) w =
     (Inr RNone,
      w\<lparr>disk := Some (Rows (fieldnames # map (\<lambda>d. map (\<lambda>k. csv_field (the (named d k))) fieldnames)
                         (filter (\<lambda>d. \<not> name_matches_ci name d) (mem w)))),
        writes := Suc (writes w),
        stdout := stdout w @ progress_output @
                  ''Item '' @ sq @ name @ sq @ '' removed successfully.'' @ nl\<rparr>)"
proof -
  let ?w = "w\<lparr>stdout := stdout w @ progress_output\<rparr>"
  have wf': "list_all well_formed (mem ?w)" using wf by simp
  have "check_item_present remove_item_body (keyword_call name) ?w =
        remove_item_body (keyword_call name) ?w"
    using found well_formed_has_item [OF wf]
    by (intro guard_found) (simp_all add: keyword_call_def kwargs_get_def name_matches_def)
  then show ?thesis
    using remove_item_body_well_formed [OF wf', of name]
    by (simp add: remove_item_def progress_bar_apply keyword_call_def)
qed

lemma remove_item_not_found:
  assumes wf: "list_all well_formed (mem w)"
    and nf: "\<not> (\<exists>d\<in>set (mem w). name_matches name d)"
  shows "remove_item (keyword_call name) w =
     (Inr RNone, w\<lparr>stdout := stdout w @ progress_output @ not_found_notice (PStr name)\<rparr>)"
proof -
  let ?w = "w\<lparr>stdout := stdout w @ progress_output\<rparr>"
  have "check_item_present remove_item_body (keyword_call name) ?w =
        (Inr RNone, ?w\<lparr>stdout := stdout ?w @ not_found_notice (kwargs_get (snd (keyword_call name)) ''item'')\<rparr>)"
    using nf well_formed_has_item [OF wf]
    by (intro guard_not_found) (simp_all add: keyword_call_def kwargs_get_def name_matches_def)
  then show ?thesis
    by (simp add: remove_item_def progress_bar_apply keyword_call_def kwargs_get_def)
qed

text \<open>
  What \<^verbatim>\<open>remove_item(data, item=name)\<close> saves. When every record is well formed, with
  no field too long to be read back, and some
  record's name equals the target exactly, the call completes, opens the file for writing
  once, and the record set it leaves in the file has no record whose name equals the target
  up to case: it is the old set without exactly those records. When no record's name
  equals the target exactly, nothing changes but the printed text.
\<close>

lemma remove_item_saved_set:
  assumes wf: "list_all well_formed (mem w)" and short: "list_all short_fields (mem w)"
  shows "if \<exists>d\<in>set (mem w). name_matches name d
     then fst (remove_item (keyword_call name) w) = Inr RNone \<and>
          writes (snd (remove_item (keyword_call name) w)) = Suc (writes w) \<and>
          load_data (snd (remove_item (keyword_call name) w)) =
            Inr (filter (\<lambda>d. \<not> name_matches_ci name d) (mem w)) \<and>
          list_all (\<lambda>d. \<not> name_matches_ci name d)
            (filter (\<lambda>d. \<not> name_matches_ci name d) (mem w))
     else remove_item (keyword_call name) w =
          (Inr RNone, w\<lparr>stdout := stdout w @ progress_output @ not_found_notice (PStr name)\<rparr>)"
proof (cases "\<exists>d\<in>set (mem w). name_matches name d")
  case True
  have kept: "list_all well_formed (filter (\<lambda>d. \<not> name_matches_ci name d) (mem w))"
    using wf by (simp add: list_all_iff)
  have kept_short: "list_all short_fields (filter (\<lambda>d. \<not> name_matches_ci name d) (mem w))"
    using short by (simp add: list_all_iff)
  have "load_data (snd (remove_item (keyword_call name) w)) =
        Inr (filter (\<lambda>d. \<not> name_matches_ci name d) (mem w))"
    by (rule load_saved_rows [OF kept kept_short]) (simp add: remove_item_found [OF wf True])
  with True show ?thesis
    by (simp add: remove_item_found [OF wf True] list_all_iff)
next
  case False
  then show ?thesis
    by (simp add: remove_item_not_found [OF wf False])
qed

lemma name_matches_record8 [simp]:
  "name_matches name (record8 i n g m b q e p) \<longleftrightarrow> n = name"
  by (simp add: name_matches_def record8_def)

lemma name_matches_ci_record8 [simp]:
  "name_matches_ci name (record8 i n g m b q e p) \<longleftrightarrow> lower n = lower name"
  by (simp add: name_matches_ci_def record8_def)

lemma well_formed_stocked: "list_all well_formed (mem stocked)"
  by (simp add: stocked_def widget_def gadget_def widget_small_def well_formed_record8)

lemma lower_examples:
  "lower ''Widget'' = ''widget''" "lower ''widget'' = ''widget''" "lower ''Gadget'' = ''gadget''"
  by (simp_all add: lower_def lower_char_def upper_letters_def lower_letters_def)

lemma has_item_key_all:
  "list_all has_item_key ds \<Longrightarrow> \<forall>d\<in>set ds. named d ''item'' \<noteq> None"
  by (simp add: list_all_iff has_item_key_def)

text \<open>
  C4. With the target passed as the keyword \<^verbatim>\<open>item\<close> and every record holding a name:
  if no record's name equals the target exactly, \<^verbatim>\<open>remove_item\<close> and \<^verbatim>\<open>update_item\<close>
  print the "not found" notice and change neither the record set nor the file nor the
  count of writes; if some record's name does, the call is the call of the wrapped
  function on the same arguments.
\<close>

theorem presence_guard:
  assumes keys: "list_all has_item_key (mem w)"
    and kw: "map_of (snd c) ''item'' = Some (PStr name)"
    and nodata: "''data'' \<notin> set (map fst (snd c))"
  shows "if \<exists>d\<in>set (mem w). name_matches name d
     then remove_item c w = remove_item_body c (w\<lparr>stdout := stdout w @ progress_output\<rparr>) \<and>
          update_item c w = update_item_body c (w\<lparr>stdout := stdout w @ progress_output\<rparr>)
     else remove_item c w =
            (Inr RNone, w\<lparr>stdout := stdout w @ progress_output @ not_found_notice (PStr name)\<rparr>) \<and>
          update_item c w =
            (Inr RNone, w\<lparr>stdout := stdout w @ progress_output @ not_found_notice (PStr name)\<rparr>)"
proof -
  let ?w = "w\<lparr>stdout := stdout w @ progress_output\<rparr>"
  have item: "kwargs_get (snd c) ''item'' = PStr name"
    using kw by (simp add: kwargs_get_def)
  have keys': "\<forall>d\<in>set (mem ?w). named d ''item'' \<noteq> None"
    using has_item_key_all [OF keys] by simp
  show ?thesis
  proof (cases "\<exists>d\<in>set (mem w). name_matches name d")
    case True
    then have found: "\<exists>d\<in>set (mem ?w). named d ''item'' = Some (kwargs_get (snd c) ''item'')"
      by (simp add: item name_matches_def)
    show ?thesis
      using True guard_found [OF keys' nodata found]
      by (simp add: remove_item_def update_item_def progress_bar_apply)
  next
    case False
    then have nf: "\<not> (\<exists>d\<in>set (mem ?w). named d ''item'' = Some (kwargs_get (snd c) ''item''))"
      by (simp add: item name_matches_def)
    show ?thesis
      using False guard_not_found [OF keys' nodata nf]
      by (simp add: remove_item_def update_item_def progress_bar_apply item)
  qed
qed

text \<open>
  C10. The guard reads the name from the keyword arguments only. When every record's name
  is a string and the call has no keyword \<^verbatim>\<open>item\<close>, whatever its positional arguments,
  \<^verbatim>\<open>remove_item\<close> and \<^verbatim>\<open>update_item\<close> print "Item None not found." and do nothing else,
  also when a record of that name exists.
\<close>

theorem positional_name_not_found:
  assumes names: "list_all has_name (mem w)"
    and kw: "map_of (snd c) ''item'' = None"
    and nodata: "''data'' \<notin> set (map fst (snd c))"
  shows "remove_item c w =
           (Inr RNone, w\<lparr>stdout := stdout w @ progress_output @ not_found_notice PNone\<rparr>) \<and>
         update_item c w =
           (Inr RNone, w\<lparr>stdout := stdout w @ progress_output @ not_found_notice PNone\<rparr>)"
proof -
  let ?w = "w\<lparr>stdout := stdout w @ progress_output\<rparr>"
  have item: "kwargs_get (snd c) ''item'' = PNone"
    using kw by (simp add: kwargs_get_def)
  have each: "named d ''item'' \<noteq> None \<and> named d ''item'' \<noteq> Some PNone" if "d \<in> set (mem w)" for d
  proof -
    from that names have "has_name d" by (simp add: list_all_iff)
    then show ?thesis
      by (cases "named d ''item''"; cases "the (named d ''item'')") (auto simp: has_name_def)
  qed
  have keys': "\<forall>d\<in>set (mem ?w). named d ''item'' \<noteq> None"
    using each by simp
  have nf: "\<not> (\<exists>d\<in>set (mem ?w). named d ''item'' = Some (kwargs_get (snd c) ''item''))"
    using each by (simp add: item)
  show ?thesis
    using guard_not_found [OF keys' nodata nf]
    by (simp add: remove_item_def update_item_def progress_bar_apply item)
qed

lemma has_name_record8 [simp]: "has_name (record8 i n g m b q e p)"
  by (simp add: has_name_def record8_def)

lemma has_item_key_record8 [simp]: "has_item_key (record8 i n g m b q e p)"
  by (simp add: has_item_key_def record8_def)

theorem presence_guard_witness:
  "list_all has_item_key (mem stocked) \<and>
   remove_item (keyword_call ''Widget'') stocked =
     remove_item_body (keyword_call ''Widget'') (stocked\<lparr>stdout := stdout stocked @ progress_output\<rparr>) \<and>
   update_item (keyword_call ''Widget'') stocked =
     update_item_body (keyword_call ''Widget'') (stocked\<lparr>stdout := stdout stocked @ progress_output\<rparr>) \<and>
   remove_item (keyword_call ''Nonexistent'') stocked =
     (Inr RNone, stocked\<lparr>stdout := stdout stocked @ progress_output @
        ''Item Nonexistent not found.'' @ nl\<rparr>) \<and>
   update_item (keyword_call ''Nonexistent'') stocked =
     (Inr RNone, stocked\<lparr>stdout := stdout stocked @ progress_output @
        ''Item Nonexistent not found.'' @ nl\<rparr>)"
proof -
  have keys: "list_all has_item_key (mem stocked)"
    by (simp add: stocked_def widget_def gadget_def widget_small_def)
  show ?thesis
    using keys presence_guard [OF keys, of "keyword_call ''Widget''" "''Widget''"]
      presence_guard [OF keys, of "keyword_call ''Nonexistent''" "''Nonexistent''"]
    by (simp add: keyword_call_def stocked_def widget_def gadget_def widget_small_def
        not_found_notice_def)
qed

theorem positional_name_not_found_witness:
  "list_all has_name (mem stocked) \<and>
   (\<exists>d\<in>set (mem stocked). name_matches ''Widget'' d) \<and>
   remove_item (positional_call ''Widget'') stocked =
     (Inr RNone, stocked\<lparr>stdout := stdout stocked @ progress_output @ ''Item None not found.'' @ nl\<rparr>) \<and>
   update_item (positional_call ''Widget'') stocked =
     (Inr RNone, stocked\<lparr>stdout := stdout stocked @ progress_output @ ''Item None not found.'' @ nl\<rparr>)"
proof -
  have names: "list_all has_name (mem stocked)"
    by (simp add: stocked_def widget_def gadget_def widget_small_def)
  show ?thesis
    using names positional_name_not_found [OF names, of "positional_call ''Widget''"]
    by (simp add: positional_call_def stocked_def widget_def gadget_def widget_small_def
        not_found_notice_def)
qed

section \<open>The update, and what the mutating operations hand back\<close>

lemma update_loop_keys:
  "list_all has_item_key ds \<Longrightarrow>
   update_loop item q e p ds =
     (None, map (\<lambda>d. if named d ''item'' = Some item then update_dict q e p d else d) ds)"
proof (induction ds)
  case Nil
  then show ?case by simp
next
  case (Cons d ds)
  from Cons.prems obtain v where "named d ''item'' = Some v"
    by (auto simp: has_item_key_def)
  with Cons show ?case
    by (simp add: getitem_def)
qed

lemma bind_update_call:
  "bind_params [''item'', ''quantity'', ''expiration_date'', ''price''] (update_call name q e p) =
     Inr (map_of [(''item'', PStr name), (''quantity'', q), (''expiration_date'', e), (''price'', p)])"
  by (simp add: bind_params_def update_call_def)

lemma mem_save_data: "mem (snd (save_data ds w)) = mem w"
  by (simp add: save_data_def split: prod.splits)

lemma update_item_body_mem:
  assumes "list_all has_item_key (mem w)"
  shows "mem (snd (update_item_body (update_call name q e p) w)) =
     map (\<lambda>d. if name_matches name d then update_dict q e p d else d) (mem w)"
proof -
  obtain x w' where sv: "save_data (map (\<lambda>d. if name_matches name d then update_dict q e p d else d) (mem w))
      (w\<lparr>mem := map (\<lambda>d. if name_matches name d then update_dict q e p d else d) (mem w)\<rparr>) = (x, w')"
    by (cases "save_data (map (\<lambda>d. if name_matches name d then update_dict q e p d else d) (mem w))
      (w\<lparr>mem := map (\<lambda>d. if name_matches name d then update_dict q e p d else d) (mem w)\<rparr>)")
  then have "mem w' = map (\<lambda>d. if name_matches name d then update_dict q e p d else d) (mem w)"
    using mem_save_data [of "map (\<lambda>d. if name_matches name d then update_dict q e p d else d) (mem w)"
        "w\<lparr>mem := map (\<lambda>d. if name_matches name d then update_dict q e p d else d) (mem w)\<rparr>"]
    by simp
  with sv show ?thesis
    by (cases x)
      (simp_all add: update_item_body_def bind_update_call update_loop_keys [OF assms]
        param_default_def name_matches_def)
qed

lemma update_item_mem:
  assumes keys: "list_all has_item_key (mem w)"
  shows "mem (snd (update_item (update_call name q e p) w)) =
     map (\<lambda>d. if name_matches name d then update_dict q e p d else d) (mem w)"
proof -
  let ?w = "w\<lparr>stdout := stdout w @ progress_output\<rparr>"
  have keys': "list_all has_item_key (mem ?w)" using keys by simp
  have kw: "map_of (snd (update_call name q e p)) ''item'' = Some (PStr name)"
    by (simp add: update_call_def)
  have nodata: "''data'' \<notin> set (map fst (snd (update_call name q e p)))"
    by (simp add: update_call_def)
  have item: "kwargs_get (snd (update_call name q e p)) ''item'' = PStr name"
    by (simp add: update_call_def kwargs_get_def)
  show ?thesis
  proof (cases "\<exists>d\<in>set (mem w). name_matches name d")
    case True
    then have "check_item_present update_item_body (update_call name q e p) ?w =
        update_item_body (update_call name q e p) ?w"
      using has_item_key_all [OF keys'] nodata
      by (intro guard_found) (simp_all add: item name_matches_def)
    then show ?thesis
      using update_item_body_mem [OF keys', of name q e p]
      by (simp add: update_item_def progress_bar_apply)
  next
    case False
    then have "check_item_present update_item_body (update_call name q e p) ?w =
        (Inr RNone, ?w\<lparr>stdout := stdout ?w @ not_found_notice (kwargs_get (snd (update_call name q e p)) ''item'')\<rparr>)"
      using has_item_key_all [OF keys'] nodata
      by (intro guard_not_found) (simp_all add: item name_matches_def)
    moreover from False have "map (\<lambda>d. if name_matches name d then update_dict q e p d else d) (mem w) = mem w"
      by (induction "mem w") (auto intro: map_idI)
    ultimately show ?thesis
      by (simp add: update_item_def progress_bar_apply)
  qed
qed

lemma update_dict_frame:
  "rest (update_dict q e p d) = rest d"
  "k \<noteq> ''quantity'' \<Longrightarrow> k \<noteq> ''expiration_date'' \<Longrightarrow> k \<noteq> ''price'' \<Longrightarrow>
     named (update_dict q e p d) k = named d k"
  "named (update_dict q e p d) ''quantity'' = (if q \<noteq> PNone then Some q else named d ''quantity'')"
  "named (update_dict q e p d) ''expiration_date'' =
     (if e \<noteq> PNone then Some e else named d ''expiration_date'')"
  "named (update_dict q e p d) ''price'' = (if p \<noteq> PNone then Some p else named d ''price'')"
  by (simp_all add: update_dict_def set_unless_none_def dict_set_def)

text \<open>A keyword left out of the call is the default \<^verbatim>\<open>None\<close>: the call with the name
  and the price only is the call of \<^verbatim>\<open>main.py\<close> with the other two fields blank.\<close>

lemma update_item_price_only:
  "update_item ([], [(''item'', PStr name), (''price'', p)]) w =
   update_item (update_call name PNone PNone p) w"
proof -
  have body: "update_item_body ([], [(''item'', PStr name), (''price'', p)]) v =
      update_item_body (update_call name PNone PNone p) v" for v
    by (simp add: update_item_body_def bind_params_def update_call_def param_default_def)
  show ?thesis
    by (simp add: update_item_def progress_bar_apply check_item_present_def update_call_def
        kwargs_get_def Let_def body [unfolded update_call_def]
        split: sum.split bool.split)
qed

text \<open>
  C6. When every record holds a name, \<^verbatim>\<open>update_item\<close> called with the keywords of
  \<^verbatim>\<open>main.py\<close> changes the caller's records one by one within \<open>update_frame\<close>: with only
  the price given, the price of every record named exactly as the target becomes the new
  price, its quantity, its expiration date and all its other entries stay as they were,
  and every other record stays as it was; in general an argument that is \<^verbatim>\<open>None\<close> leaves
  its field untouched.
\<close>

theorem update_item_partial:
  assumes keys: "list_all has_item_key (mem w)"
  shows "list_all2 (update_frame name q e p)
           (mem w) (mem (snd (update_item (update_call name q e p) w)))"
  unfolding update_item_mem [OF keys]
  by (simp add: list_all2_map2 list_all2_same update_frame_def update_dict_frame)

lemma well_formed_update_dict:
  assumes "well_formed d"
  shows "well_formed (update_dict q e p d)"
proof -
  have "named (update_dict q e p d) k \<noteq> None \<longleftrightarrow> named d k \<noteq> None" if "k \<in> set fieldnames" for k
    using that assms
    by (cases q; cases e; cases p)
      (auto simp: update_dict_def set_unless_none_def dict_set_def elim: well_formed_field)
  have dom: "dom (named (update_dict q e p d)) \<subseteq> set fieldnames"
    using assms
    by (cases q; cases e; cases p)
      (auto simp: update_dict_def set_unless_none_def dict_set_def well_formed_def fieldnames_def
        split: if_splits)
  have vals: "case named (update_dict q e p d) k of Some (PStr s) \<Rightarrow> True | _ \<Rightarrow> False"
    if "k \<in> set fieldnames" for k
  proof -
    from assms that obtain s where "named d k = Some (PStr s)" by (rule well_formed_field)
    then show ?thesis
      by (cases q; cases e; cases p)
        (simp_all add: update_dict_def set_unless_none_def dict_set_def)
  qed
  show ?thesis
    using assms dom vals by (simp add: well_formed_def list_all_iff update_dict_frame)
qed

lemma update_item_found:
  assumes wf: "list_all well_formed (mem w)"
    and found: "\<exists>d\<in>set (mem w). name_matches name d"
  shows "update_item (update_call name q e p) w =
     (Inr RNone,
      w\<lparr>mem := map (\<lambda>d. if name_matches name d then update_dict q e p d else d) (mem w),
        disk := Some (Rows (fieldnames # map (\<lambda>d. map (\<lambda>k. csv_field (the (named d k))) fieldnames)
                  (map (\<lambda>d. if name_matches name d then update_dict q e p d else d) (mem w)))),
        writes := Suc (writes w),
        stdout := stdout w @ progress_output\<rparr>)"
proof -
  let ?w = "w\<lparr>stdout := stdout w @ progress_output\<rparr>"
  let ?ds = "map (\<lambda>d. if name_matches name d then update_dict q e p d else d) (mem w)"
  have keys: "list_all has_item_key (mem ?w)"
    using well_formed_has_item [OF wf] by (simp add: list_all_iff has_item_key_def)
  have wf': "list_all well_formed ?ds"
    using wf by (auto simp: list_all_iff well_formed_update_dict)
  have "check_item_present update_item_body (update_call name q e p) ?w =
      update_item_body (update_call name q e p) ?w"
    using found has_item_key_all [OF keys]
    by (intro guard_found) (simp_all add: update_call_def kwargs_get_def name_matches_def)
  moreover have "update_item_body (update_call name q e p) ?w =
      (Inr RNone, ?w\<lparr>mem := ?ds,
         disk := Some (Rows (fieldnames # map (\<lambda>d. map (\<lambda>k. csv_field (the (named d k))) fieldnames) ?ds)),
         writes := Suc (writes w)\<rparr>)"
  proof -
    have loop: "update_loop (PStr name) q e p (mem w) = (None, ?ds)"
      using update_loop_keys [OF keys, of "PStr name" q e p] by (simp add: name_matches_def)
    show ?thesis
      using save_data_well_formed [OF wf', of "?w\<lparr>mem := ?ds\<rparr>"]
      by (simp add: update_item_body_def bind_update_call param_default_def loop)
  qed
  ultimately show ?thesis
    by (simp add: update_item_def progress_bar_apply)
qed

lemma new_record_strings:
  "new_record fk (PStr n) (PStr q) (PStr e) (PStr p) =
     record8 (uuid4 fk) n (ean13 fk) (ean8 fk) (company fk) q e p"
  by (simp add: new_record_def record8_def)

lemma add_item_well_formed:
  assumes wf: "list_all well_formed (mem w)"
  shows "add_item fk (PStr n, PStr q, PStr e, PStr p) w =
     (Inr RNone,
      w\<lparr>mem := mem w @ [new_record fk (PStr n) (PStr q) (PStr e) (PStr p)],
        disk := Some (Rows (fieldnames # map (\<lambda>d. map (\<lambda>k. csv_field (the (named d k))) fieldnames)
                  (mem w @ [new_record fk (PStr n) (PStr q) (PStr e) (PStr p)]))),
        writes := Suc (writes w),
        stdout := stdout w @ progress_output @ ''Item '' @ sq @ n @ sq @ '' added successfully.'' @ nl\<rparr>)"
proof -
  have wf': "list_all well_formed (mem w @ [new_record fk (PStr n) (PStr q) (PStr e) (PStr p)])"
    using wf by (simp add: new_record_strings well_formed_record8)
  show ?thesis
    by (simp add: add_item_def progress_bar_apply save_data_well_formed [OF wf'])
qed

text \<open>After \<^verbatim>\<open>add_item\<close> and after \<^verbatim>\<open>update_item\<close> the file holds the caller's list
  (no field being too long to be read back).\<close>

lemma short_fields_update_dict:
  assumes "well_formed d" and "short_fields d"
    and "short_value q" and "short_value e" and "short_value p"
  shows "short_fields (update_dict q e p d)"
proof -
  have "length (field (update_dict q e p d) k) \<le> field_size_limit" if "k \<in> set fieldnames" for k
  proof -
    from assms(2) that have old: "length (field d k) \<le> field_size_limit"
      by (simp add: short_fields_def list_all_iff)
    show ?thesis
      using old assms(3-5)
      by (cases q; cases e; cases p)
        (auto simp: field_def update_dict_def set_unless_none_def dict_set_def short_value_def)
  qed
  then show ?thesis
    by (simp add: short_fields_def list_all_iff)
qed

lemma add_item_saves_memory:
  assumes wf: "list_all well_formed (mem w)" and short: "list_all short_fields (mem w)"
    and new: "short_fields (new_record fk (PStr n) (PStr q) (PStr e) (PStr p))"
  shows "load_data (snd (add_item fk (PStr n, PStr q, PStr e, PStr p) w)) =
     Inr (mem (snd (add_item fk (PStr n, PStr q, PStr e, PStr p) w)))"
proof -
  have wf': "list_all well_formed (mem w @ [new_record fk (PStr n) (PStr q) (PStr e) (PStr p)])"
    using wf by (simp add: new_record_strings well_formed_record8)
  have "load_data (w\<lparr>mem := mem w @ [new_record fk (PStr n) (PStr q) (PStr e) (PStr p)],
        disk := Some (Rows (fieldnames # map (\<lambda>d. map (\<lambda>k. csv_field (the (named d k))) fieldnames)
                  (mem w @ [new_record fk (PStr n) (PStr q) (PStr e) (PStr p)]))),
        writes := Suc (writes w),
        stdout := stdout w @ progress_output @ ''Item '' @ sq @ n @ sq @ '' added successfully.'' @ nl\<rparr>)
      = Inr (mem w @ [new_record fk (PStr n) (PStr q) (PStr e) (PStr p)])"
    using short new by (intro load_saved_rows [OF wf']) simp_all
  then show ?thesis
    by (simp add: add_item_well_formed [OF wf])
qed

lemma update_item_saves_memory:
  assumes wf: "list_all well_formed (mem w)" and short: "list_all short_fields (mem w)"
    and vals: "short_value q" "short_value e" "short_value p"
    and found: "\<exists>d\<in>set (mem w). name_matches name d"
  shows "load_data (snd (update_item (update_call name q e p) w)) =
     Inr (mem (snd (update_item (update_call name q e p) w)))"
proof -
  have wf': "list_all well_formed (map (\<lambda>d. if name_matches name d then update_dict q e p d else d) (mem w))"
    using wf by (auto simp: list_all_iff well_formed_update_dict)
  have "load_data (w\<lparr>mem := map (\<lambda>d. if name_matches name d then update_dict q e p d else d) (mem w),
        disk := Some (Rows (fieldnames # map (\<lambda>d. map (\<lambda>k. csv_field (the (named d k))) fieldnames)
                  (map (\<lambda>d. if name_matches name d then update_dict q e p d else d) (mem w)))),
        writes := Suc (writes w),
        stdout := stdout w @ progress_output\<rparr>)
      = Inr (map (\<lambda>d. if name_matches name d then update_dict q e p d else d) (mem w))"
  proof (rule load_saved_rows [OF wf'])
    show "list_all short_fields
        (map (\<lambda>d. if name_matches name d then update_dict q e p d else d) (mem w))"
      using wf short vals by (auto simp: list_all_iff short_fields_update_dict)
  qed simp
  then show ?thesis
    by (simp add: update_item_found [OF wf found])
qed

lemma load_data_stocked: "load_data stocked = Inr (mem stocked)"
  by (simp add: load_data_def within_limit_def field_size_limit_def stocked_def widget_def
      gadget_def widget_small_def record8_def dict_of_row_def fieldnames_def dict_set_def)

lemma remove_widget_stocked:
  "remove_item (keyword_call ''Widget'') stocked =
     (Inr RNone,
      stocked\<lparr>disk := Some (Rows (fieldnames # map (\<lambda>d. map (\<lambda>k. csv_field (the (named d k))) fieldnames)
                         [gadget])),
        writes := Suc (writes stocked),
        stdout := stdout stocked @ progress_output @
                  ''Item '' @ sq @ ''Widget'' @ sq @ '' removed successfully.'' @ nl\<rparr>)"
proof -
  have found: "\<exists>d\<in>set (mem stocked). name_matches ''Widget'' d"
    by (simp add: stocked_def widget_def)
  have kept: "filter (\<lambda>d. \<not> name_matches_ci ''Widget'' d) (mem stocked) = [gadget]"
    by (simp add: stocked_def widget_def gadget_def widget_small_def lower_examples)
  show ?thesis
    using remove_item_found [OF well_formed_stocked found] by (simp only: kept)
qed

lemma load_after_remove_widget:
  "load_data (snd (remove_item (keyword_call ''Widget'') stocked)) = Inr [gadget]"
proof -
  have wf: "list_all well_formed [gadget]"
    by (simp add: gadget_def well_formed_record8)
  have short: "list_all short_fields [gadget]"
    by (simp add: gadget_def short_fields_record8 field_size_limit_def)
  show ?thesis
    by (rule load_saved_rows [OF wf short]) (simp add: remove_widget_stocked)
qed

text \<open>
  C1, at the failing input. \<^verbatim>\<open>remove_item(data, item="Widget")\<close> on the inventory
  \<open>stocked\<close> writes the file once, and the file then holds the one record whose name is
  not "Widget" in any case; but the call returns \<^verbatim>\<open>None\<close>, and the caller's list still
  holds both records whose name equals "Widget" up to case.
\<close>

theorem remove_item_yields_nothing:
  "fst (remove_item (keyword_call ''Widget'') stocked) = Inr RNone \<and>
   filter (name_matches_ci ''Widget'') (mem (snd (remove_item (keyword_call ''Widget'') stocked)))
     = [widget, widget_small] \<and>
   disk (snd (remove_item (keyword_call ''Widget'') stocked)) =
     Some (Rows [fieldnames,
       [''2'', ''Gadget'', ''4006381333948'', ''96385081'', ''Acme'', ''7'', ''2024-01-10'', ''12.00'']]) \<and>
   writes (snd (remove_item (keyword_call ''Widget'') stocked)) = Suc (writes stocked)"
proof -
  have "filter (name_matches_ci ''Widget'') (mem stocked) = [widget, widget_small]"
    by (simp add: stocked_def widget_def gadget_def widget_small_def lower_examples)
  moreover have "map (\<lambda>k. csv_field (the (named gadget k))) fieldnames =
      [''2'', ''Gadget'', ''4006381333948'', ''96385081'', ''Acme'', ''7'', ''2024-01-10'', ''12.00'']"
    by (simp add: gadget_def record8_def fieldnames_def)
  ultimately show ?thesis
    by (simp add: remove_widget_stocked)
qed

text \<open>
  C2, at the failing input. The inventory \<open>stocked\<close> is in step with its file. After
  \<^verbatim>\<open>remove_item(data, item="Widget")\<close> has completed, the caller's list still holds all
  three records, while the file holds the one record that is left: the list in memory and
  the saved list differ.
\<close>

theorem remove_item_leaves_memory:
  "load_data stocked = Inr (mem stocked) \<and>
   fst (remove_item (keyword_call ''Widget'') stocked) = Inr RNone \<and>
   mem (snd (remove_item (keyword_call ''Widget'') stocked)) = [widget, gadget, widget_small] \<and>
   load_data (snd (remove_item (keyword_call ''Widget'') stocked)) = Inr [gadget]"
proof -
  have "mem (snd (remove_item (keyword_call ''Widget'') stocked)) = mem stocked"
    by (simp add: remove_widget_stocked)
  then have "mem (snd (remove_item (keyword_call ''Widget'') stocked)) = [widget, gadget, widget_small]"
    by (simp add: stocked_def)
  moreover have "fst (remove_item (keyword_call ''Widget'') stocked) = Inr RNone"
    by (simp add: remove_widget_stocked)
  ultimately show ?thesis
    using load_data_stocked load_after_remove_widget by simp
qed

text \<open>No call of a mutating operation returns a list, whatever its arguments.\<close>

lemma guarded_returns_none:
  assumes "\<And>c w. fst (func c w) \<noteq> Inr (RList xs)"
  shows "fst (check_item_present func c w) \<noteq> Inr (RList xs)"
  using assms
  by (auto simp: check_item_present_def Let_def split: sum.splits bool.splits)

lemma remove_item_body_no_list: "fst (remove_item_body c w) \<noteq> Inr (RList xs)"
  by (auto simp: remove_item_body_def split: sum.splits option.splits prod.splits)

lemma update_item_body_no_list: "fst (update_item_body c w) \<noteq> Inr (RList xs)"
  by (auto simp: update_item_body_def split: sum.splits option.splits prod.splits)

lemma add_item_body_no_list: "fst (add_item_body fk a w) \<noteq> Inr (RList xs)"
  by (cases a) (auto split: option.splits prod.splits)

lemma mutators_never_return_list:
  "fst (add_item fk a w) \<noteq> Inr (RList xs)"
  "fst (remove_item c w) \<noteq> Inr (RList xs)"
  "fst (update_item c w) \<noteq> Inr (RList xs)"
  by (simp_all add: add_item_def remove_item_def update_item_def progress_bar_apply
      add_item_body_no_list guarded_returns_none remove_item_body_no_list
      update_item_body_no_list)

text \<open>
  C3, at the failing input. \<^verbatim>\<open>add_item\<close> appends the new record to the caller's list and
  returns \<^verbatim>\<open>None\<close>, not the list; \<^verbatim>\<open>remove_item\<close> and \<^verbatim>\<open>update_item\<close> return
  \<^verbatim>\<open>None\<close> as well.
\<close>

theorem mutators_return_none:
  "fst (add_item fake0 (PStr ''Bolt'', PStr ''3'', PStr ''2030-01-01'', PStr ''1.25'') stocked) = Inr RNone \<and>
   mem (snd (add_item fake0 (PStr ''Bolt'', PStr ''3'', PStr ''2030-01-01'', PStr ''1.25'') stocked)) =
     [widget, gadget, widget_small,
      record8 (uuid4 fake0) ''Bolt'' (ean13 fake0) (ean8 fake0) (company fake0) ''3'' ''2030-01-01'' ''1.25''] \<and>
   fst (remove_item (keyword_call ''Widget'') stocked) = Inr RNone \<and>
   fst (update_item (update_call ''Widget'' PNone PNone (PStr ''9.99'')) stocked) = Inr RNone"
proof -
  have found: "\<exists>d\<in>set (mem stocked). name_matches ''Widget'' d"
    by (simp add: stocked_def widget_def)
  have "mem stocked = [widget, gadget, widget_small]"
    by (simp add: stocked_def)
  then show ?thesis
    by (simp add: add_item_well_formed [OF well_formed_stocked] new_record_strings
        remove_widget_stocked update_item_found [OF well_formed_stocked found])
qed

theorem update_item_partial_witness:
  "list_all has_item_key (mem stocked) \<and>
   list_all2 (update_frame ''Widget'' PNone PNone (PStr ''9.99'')) (mem stocked)
     (mem (snd (update_item (update_call ''Widget'' PNone PNone (PStr ''9.99'')) stocked))) \<and>
   mem (snd (update_item (update_call ''Widget'' PNone PNone (PStr ''9.99'')) stocked)) =
     [record8 ''1'' ''Widget'' ''4006381333931'' ''96385074'' ''Acme'' ''5'' ''2024-01-09'' ''9.99'',
      gadget, widget_small]"
proof -
  have keys: "list_all has_item_key (mem stocked)"
    by (simp add: stocked_def widget_def gadget_def widget_small_def)
  have "update_dict PNone PNone (PStr ''9.99'') widget =
      record8 ''1'' ''Widget'' ''4006381333931'' ''96385074'' ''Acme'' ''5'' ''2024-01-09'' ''9.99''"
    by (simp add: update_dict_def set_unless_none_def dict_set_def widget_def record8_def)
  then have "mem (snd (update_item (update_call ''Widget'' PNone PNone (PStr ''9.99'')) stocked)) =
     [record8 ''1'' ''Widget'' ''4006381333931'' ''96385074'' ''Acme'' ''5'' ''2024-01-09'' ''9.99'',
      gadget, widget_small]"
    by (simp add: update_item_mem [OF keys])
      (simp add: stocked_def widget_def gadget_def widget_small_def)
  then show ?thesis
    using keys update_item_partial [OF keys, of "''Widget''" PNone PNone "PStr ''9.99''"]
    by simp
qed

section \<open>The derived views\<close>

lemma exp_key_has_date: "has_date d \<Longrightarrow> exp_key d = Inr (date_of d)"
  by (cases "exp_key d") (simp_all add: has_date_def date_of_def)

lemma keys_of_has_date: "list_all has_date ds \<Longrightarrow> keys_of ds = Inr (map date_of ds)"
  by (induction ds) (simp_all add: exp_key_has_date)

lemma insort_key_decorate:
  "insort_key fst (f x, x) (map (\<lambda>y. (f y, y)) ys) = map (\<lambda>y. (f y, y)) (insort_key f x ys)"
  by (induction ys) simp_all

lemma sort_key_decorate:
  "sort_key fst (map (\<lambda>y. (f y, y)) xs) = map (\<lambda>y. (f y, y)) (sort_key f xs)"
  by (induction xs) (simp_all add: insort_key_decorate)

lemma sort_by_expiration_date_has_date:
  assumes "list_all has_date ds"
  shows "sort_by_expiration_date ds = Inr (sort_key date_of ds)"
proof -
  have "zip (map date_of ds) ds = map (\<lambda>y. (date_of y, y)) ds"
    by (simp add: zip_map1 zip_same_conv_map)
  then show ?thesis
    by (simp add: sort_by_expiration_date_def keys_of_has_date [OF assms] sort_key_decorate o_def)
qed

lemma expired_filter_has_date:
  "list_all has_date ds \<Longrightarrow>
   expired_filter today ds = Inr (filter (\<lambda>d. date_of d < today) ds)"
  by (induction ds) (simp_all add: exp_key_has_date)

lemma cells_well_formed:
  assumes "well_formed d"
  shows "cells d = Inr (table_row d)"
proof -
  have "cell d k n = Inr (ljust n (field d k))" if "k \<in> set fieldnames" for k n
  proof -
    from assms that obtain s where "named d k = Some (PStr s)" by (rule well_formed_field)
    then show ?thesis by (simp add: cell_def getitem_def field_def)
  qed
  then show ?thesis
    by (simp add: cells_def table_row_def fieldnames_def)
qed

lemma print_rows_total:
  "\<forall>d\<in>set ds. line d = Inr (f d) \<Longrightarrow>
   print_rows line ds out = (None, out @ concat (map (\<lambda>d. f d @ nl) ds))"
  by (induction ds arbitrary: out) simp_all

lemma get_expired_items_well_formed:
  assumes wf: "list_all well_formed (mem w)" and dates: "list_all has_date (mem w)"
  shows "get_expired_items today w =
     (if filter (\<lambda>d. date_of d < today) (mem w) = []
      then (Inr (RList []),
            w\<lparr>stdout := stdout w @ progress_output @ ''No expired items found.'' @ nl\<rparr>)
      else (Inr (RList (sort_key date_of (filter (\<lambda>d. date_of d < today) (mem w)))),
            w\<lparr>stdout := stdout w @ progress_output @ nl @ ''Expired Items'' @ nl @
                  rule_line 70 @ heading @ nl @ rule_line 70 @
                  concat (map (\<lambda>d. table_row d @ nl)
                    (sort_key date_of (filter (\<lambda>d. date_of d < today) (mem w)))) @
                  rule_line 70\<rparr>))"
proof -
  let ?w = "w\<lparr>stdout := stdout w @ progress_output\<rparr>"
  let ?xs = "filter (\<lambda>d. date_of d < today) (mem w)"
  have flt: "expired_filter today (mem ?w) = Inr ?xs"
    using expired_filter_has_date [OF dates] by simp
  show ?thesis
  proof (cases ?xs)
    case Nil
    then show ?thesis
      using flt by (simp add: get_expired_items_def progress_bar_apply get_expired_items_body_def)
  next
    case (Cons x xs)
    define S where "S = sort_key date_of ?xs"
    have flt': "expired_filter today (mem w) = Inr (x # xs)"
      using flt Cons by simp
    have "list_all has_date ?xs" using dates by (simp add: list_all_iff)
    then have "sort_by_expiration_date ?xs = Inr S"
      unfolding S_def by (rule sort_by_expiration_date_has_date)
    then have srt: "sort_by_expiration_date (x # xs) = Inr S"
      using Cons by simp
    have "\<forall>d\<in>set S. cells d = Inr (table_row d)"
      using wf by (auto simp: S_def list_all_iff cells_well_formed)
    then have prt: "print_rows cells S out =
        (None, out @ concat (map (\<lambda>d. table_row d @ nl) S))" for out
      by (rule print_rows_total)
    have "get_expired_items today w =
       (Inr (RList S),
        w\<lparr>stdout := stdout w @ progress_output @ nl @ ''Expired Items'' @ nl @
                  rule_line 70 @ heading @ nl @ rule_line 70 @
                  concat (map (\<lambda>d. table_row d @ nl) S) @ rule_line 70\<rparr>)"
      by (simp add: get_expired_items_def progress_bar_apply get_expired_items_body_def
          flt' srt prt)
    moreover have "?xs \<noteq> []" using Cons by simp
    ultimately show ?thesis
      unfolding S_def by (simp only: if_False)
  qed
qed

lemma get_full_report_well_formed:
  assumes wf: "list_all well_formed (mem w)" and dates: "list_all has_date (mem w)"
    and nonempty: "mem w \<noteq> []"
  shows "get_full_report w =
     (Inr RNone,
      w\<lparr>stdout := stdout w @ progress_output @ nl @ ''Full Inventory Report'' @ nl @
            rule_line 71 @ ''|'' @ heading @ nl @ rule_line 71 @
            concat (map (\<lambda>d. (''|'' @ table_row d) @ nl) (sort_key date_of (mem w))) @
            rule_line 71\<rparr>)"
proof -
  let ?w = "w\<lparr>stdout := stdout w @ progress_output\<rparr>"
  have srt: "sort_by_expiration_date (mem w) = Inr (sort_key date_of (mem w))"
    by (rule sort_by_expiration_date_has_date [OF dates])
  have "\<forall>d\<in>set (sort_key date_of (mem w)). report_line d = Inr (''|'' @ table_row d)"
    using wf by (auto simp: list_all_iff cells_well_formed report_line_def)
  then have prt: "print_rows report_line (sort_key date_of (mem w)) out =
      (None, out @ concat (map (\<lambda>d. (''|'' @ table_row d) @ nl) (sort_key date_of (mem w))))" for out
    by (rule print_rows_total)
  show ?thesis
    using nonempty
    by (simp add: get_full_report_def progress_bar_apply get_full_report_body_def srt prt)
qed

text \<open>
  C8. When every record is well formed and its expiration date parses,
  \<^verbatim>\<open>get_expired_items\<close> returns exactly the records whose date is strictly before today
  (sorted by date), so a record dated today is not among them; and when no record is
  strictly before today it prints "No expired items found." and returns the empty list,
  raising nothing.
\<close>

theorem expired_strictly_before_today:
  assumes wf: "list_all well_formed (mem w)" and dates: "list_all has_date (mem w)"
  shows "fst (get_expired_items today w) =
           Inr (RList (sort_key date_of (filter (\<lambda>d. date_of d < today) (mem w)))) \<and>
         (filter (\<lambda>d. date_of d < today) (mem w) = [] \<longrightarrow>
          get_expired_items today w =
            (Inr (RList []),
             w\<lparr>stdout := stdout w @ progress_output @ ''No expired items found.'' @ nl\<rparr>))"
  by (simp add: get_expired_items_well_formed [OF wf dates])

text \<open>
  C9. When the inventory is not empty, every record is well formed and its expiration date
  parses: \<^verbatim>\<open>sort_by_expiration_date\<close> returns the records in ascending order of their
  parsed dates, the records of any one date in their original relative order, and
  \<^verbatim>\<open>get_full_report\<close> prints one line per record in exactly that order; the list
  \<^verbatim>\<open>get_expired_items\<close> returns is the expired records in ascending order of date, those
  of one date in their original relative order, and that is the order of the lines it
  prints.
\<close>

theorem sort_stable_ascending:
  assumes wf: "list_all well_formed (mem w)" and dates: "list_all has_date (mem w)"
    and nonempty: "mem w \<noteq> []"
  shows "(\<exists>xs. sort_by_expiration_date (mem w) = Inr xs \<and>
            sorted (map date_of xs) \<and>
            (\<forall>k. filter (\<lambda>d. date_of d = k) xs = filter (\<lambda>d. date_of d = k) (mem w)) \<and>
            get_full_report w =
              (Inr RNone,
               w\<lparr>stdout := stdout w @ progress_output @ nl @ ''Full Inventory Report'' @ nl @
                     rule_line 71 @ ''|'' @ heading @ nl @ rule_line 71 @
                     concat (map (\<lambda>d. (''|'' @ table_row d) @ nl) xs) @ rule_line 71\<rparr>)) \<and>
         (\<exists>ys. fst (get_expired_items today w) = Inr (RList ys) \<and>
            sorted (map date_of ys) \<and>
            (\<forall>k. filter (\<lambda>d. date_of d = k) ys =
                 filter (\<lambda>d. date_of d = k) (filter (\<lambda>d. date_of d < today) (mem w))) \<and>
            (ys \<noteq> [] \<longrightarrow>
             stdout (snd (get_expired_items today w)) =
               stdout w @ progress_output @ nl @ ''Expired Items'' @ nl @
               rule_line 70 @ heading @ nl @ rule_line 70 @
               concat (map (\<lambda>d. table_row d @ nl) ys) @ rule_line 70))"
proof (intro conjI exI)
  show "sort_by_expiration_date (mem w) = Inr (sort_key date_of (mem w))"
    by (rule sort_by_expiration_date_has_date [OF dates])
  show "sorted (map date_of (sort_key date_of (mem w)))"
    by (rule sorted_sort_key)
  show "\<forall>k. filter (\<lambda>d. date_of d = k) (sort_key date_of (mem w)) =
            filter (\<lambda>d. date_of d = k) (mem w)"
    by (simp add: sort_key_stable)
  show "get_full_report w =
      (Inr RNone,
       w\<lparr>stdout := stdout w @ progress_output @ nl @ ''Full Inventory Report'' @ nl @
             rule_line 71 @ ''|'' @ heading @ nl @ rule_line 71 @
             concat (map (\<lambda>d. (''|'' @ table_row d) @ nl) (sort_key date_of (mem w))) @
             rule_line 71\<rparr>)"
    by (rule get_full_report_well_formed [OF wf dates nonempty])
  let ?ys = "sort_key date_of (filter (\<lambda>d. date_of d < today) (mem w))"
  show "fst (get_expired_items today w) = Inr (RList ?ys)"
    by (simp add: get_expired_items_well_formed [OF wf dates])
  show "sorted (map date_of ?ys)"
    by (rule sorted_sort_key)
  show "\<forall>k. filter (\<lambda>d. date_of d = k) ?ys =
            filter (\<lambda>d. date_of d = k) (filter (\<lambda>d. date_of d < today) (mem w))"
    by (simp add: sort_key_stable)
  show "?ys \<noteq> [] \<longrightarrow>
      stdout (snd (get_expired_items today w)) =
        stdout w @ progress_output @ nl @ ''Expired Items'' @ nl @
        rule_line 70 @ heading @ nl @ rule_line 70 @
        concat (map (\<lambda>d. table_row d @ nl) ?ys) @ rule_line 70"
    by (simp add: get_expired_items_well_formed [OF wf dates])
qed

lemma exp_key_record8 [simp]: "exp_key (record8 i n g m b q e p) = strptime e"
  by (simp add: exp_key_def record8_def)

lemma strptime_examples:
  "strptime ''2024-01-09'' = Inr (2024, 1, 9)"
  "strptime ''2024-01-10'' = Inr (2024, 1, 10)"
  "strptime ''2023-06-01'' = Inr (2023, 6, 1)"
  "strptime ''2024-01-01'' = Inr (2024, 1, 1)"
  by (simp_all add: digit_of_def make_date_def days_in_month_def)

lemma date_of_examples:
  "date_of widget = (2024, 1, 9)" "date_of gadget = (2024, 1, 10)"
  "date_of widget_small = (2023, 6, 1)"
  "date_of batch_a = (2024, 1, 1)" "date_of batch_b = (2023, 6, 1)" "date_of batch_c = (2023, 6, 1)"
  by (simp_all add: date_of_def widget_def gadget_def widget_small_def batch_a_def batch_b_def
      batch_c_def strptime_examples del: strptime.simps)

lemma has_date_examples:
  "has_date widget" "has_date gadget" "has_date widget_small"
  "has_date batch_a" "has_date batch_b" "has_date batch_c"
  by (simp_all add: has_date_def widget_def gadget_def widget_small_def batch_a_def batch_b_def
      batch_c_def strptime_examples del: strptime.simps)

theorem expired_strictly_before_today_witness:
  "list_all well_formed (mem stocked) \<and> list_all has_date (mem stocked) \<and>
   date_of widget = (2024, 1, 9) \<and> date_of gadget = (2024, 1, 10) \<and>
   fst (get_expired_items (2024, 1, 10) stocked) = Inr (RList [widget_small, widget]) \<and>
   get_expired_items (2023, 6, 1) stocked =
     (Inr (RList []),
      stocked\<lparr>stdout := stdout stocked @ progress_output @ ''No expired items found.'' @ nl\<rparr>)"
proof -
  have dates: "list_all has_date (mem stocked)"
    by (simp add: stocked_def has_date_examples)
  have m: "mem stocked = [widget, gadget, widget_small]"
    by (simp add: stocked_def)
  show ?thesis
    using expired_strictly_before_today [OF well_formed_stocked dates, of "(2024, 1, 10)"]
      expired_strictly_before_today [OF well_formed_stocked dates, of "(2023, 6, 1)"]
      well_formed_stocked dates
    by (simp add: m date_of_examples)
qed

lemma well_formed_shelf: "list_all well_formed (mem shelf)"
  by (simp add: shelf_def batch_a_def batch_b_def batch_c_def well_formed_record8)

theorem sort_stable_ascending_witness:
  "list_all well_formed (mem shelf) \<and> list_all has_date (mem shelf) \<and> mem shelf \<noteq> [] \<and>
   map date_of (mem shelf) = [(2024, 1, 1), (2023, 6, 1), (2023, 6, 1)] \<and>
   sort_by_expiration_date (mem shelf) = Inr [batch_b, batch_c, batch_a] \<and>
   get_full_report shelf =
     (Inr RNone,
      shelf\<lparr>stdout := stdout shelf @ progress_output @ nl @ ''Full Inventory Report'' @ nl @
         rule_line 71 @ ''|'' @ heading @ nl @ rule_line 71 @
         (''|'' @ table_row batch_b) @ nl @ (''|'' @ table_row batch_c) @ nl @
         (''|'' @ table_row batch_a) @ nl @ rule_line 71\<rparr>) \<and>
   fst (get_expired_items (2024, 6, 1) shelf) = Inr (RList [batch_b, batch_c, batch_a]) \<and>
   stdout (snd (get_expired_items (2024, 6, 1) shelf)) =
     stdout shelf @ progress_output @ nl @ ''Expired Items'' @ nl @
     rule_line 70 @ heading @ nl @ rule_line 70 @
     table_row batch_b @ nl @ table_row batch_c @ nl @ table_row batch_a @ nl @ rule_line 70"
proof -
  have dates: "list_all has_date (mem shelf)"
    by (simp add: shelf_def has_date_examples)
  have m: "mem shelf = [batch_a, batch_b, batch_c]"
    by (simp add: shelf_def)
  have nonempty: "mem shelf \<noteq> []"
    by (simp add: m)
  have sorted_shelf: "sort_key date_of (mem shelf) = [batch_b, batch_c, batch_a]"
    by (simp add: m date_of_examples)
  have srt: "sort_by_expiration_date (mem shelf) = Inr [batch_b, batch_c, batch_a]"
    using sort_by_expiration_date_has_date [OF dates] by (simp only: sorted_shelf)
  have "filter (\<lambda>d. date_of d < (2024, 6, 1)) (mem shelf) = mem shelf"
    by (simp add: m date_of_examples)
  then have "fst (get_expired_items (2024, 6, 1) shelf) = Inr (RList (sort_key date_of (mem shelf)))"
    by (simp add: get_expired_items_well_formed [OF well_formed_shelf dates] nonempty)
  then have expd: "fst (get_expired_items (2024, 6, 1) shelf) = Inr (RList [batch_b, batch_c, batch_a])"
    by (simp only: sorted_shelf)
  from sort_stable_ascending [OF well_formed_shelf dates nonempty, of "(2024, 6, 1)"]
  obtain xs ys where
    xs: "sort_by_expiration_date (mem shelf) = Inr xs"
      and report: "get_full_report shelf =
        (Inr RNone,
         shelf\<lparr>stdout := stdout shelf @ progress_output @ nl @ ''Full Inventory Report'' @ nl @
            rule_line 71 @ ''|'' @ heading @ nl @ rule_line 71 @
            concat (map (\<lambda>d. (''|'' @ table_row d) @ nl) xs) @ rule_line 71\<rparr>)"
      and ys: "fst (get_expired_items (2024, 6, 1) shelf) = Inr (RList ys)"
      and printed: "ys \<noteq> [] \<longrightarrow>
        stdout (snd (get_expired_items (2024, 6, 1) shelf)) =
          stdout shelf @ progress_output @ nl @ ''Expired Items'' @ nl @
          rule_line 70 @ heading @ nl @ rule_line 70 @
          concat (map (\<lambda>d. table_row d @ nl) ys) @ rule_line 70"
    by blast
  from xs srt have xs_eq: "xs = [batch_b, batch_c, batch_a]" by simp
  from ys expd have ys_eq: "ys = [batch_b, batch_c, batch_a]" by simp
  have "map date_of (mem shelf) = [(2024, 1, 1), (2023, 6, 1), (2023, 6, 1)]"
    by (simp add: m date_of_examples)
  moreover have "get_full_report shelf =
     (Inr RNone,
      shelf\<lparr>stdout := stdout shelf @ progress_output @ nl @ ''Full Inventory Report'' @ nl @
         rule_line 71 @ ''|'' @ heading @ nl @ rule_line 71 @
         (''|'' @ table_row batch_b) @ nl @ (''|'' @ table_row batch_c) @ nl @
         (''|'' @ table_row batch_a) @ nl @ rule_line 71\<rparr>)"
    using report by (simp add: xs_eq)
  moreover have "stdout (snd (get_expired_items (2024, 6, 1) shelf)) =
     stdout shelf @ progress_output @ nl @ ''Expired Items'' @ nl @
     rule_line 70 @ heading @ nl @ rule_line 70 @
     table_row batch_b @ nl @ table_row batch_c @ nl @ table_row batch_a @ nl @ rule_line 70"
    using printed by (simp add: ys_eq)
  ultimately show ?thesis
    using well_formed_shelf dates nonempty srt expd by simp
qed

end
